theory Spec2Isabelle
  imports Main "HOL-Library.Char_ord" "HOL-Library.List_Lexorder"
begin

section \<open>Strings\<close>

text \<open>
  Strings are lists of 8-bit characters, read as the code units below 256 of the
  JavaScript string. Characters outside that range occur only in display fields of the
  suggestion tables (titles, emoji), which no function inspects; there they are written
  as the bytes of their UTF-8 encoding.
\<close>

text \<open>\<^verbatim>\<open>String.prototype.trim\<close>: the white space and line terminator code units below 256.\<close>

definition isWhiteSpace :: "char \<Rightarrow> bool" where
  "isWhiteSpace c = (of_char c \<in> {9::nat, 10, 11, 12, 13, 32, 160})"

definition trim :: "string \<Rightarrow> string" where
  "trim s = rev (dropWhile isWhiteSpace (rev (dropWhile isWhiteSpace s)))"

text \<open>\<^verbatim>\<open>String.prototype.toLowerCase\<close> on code units below 256: A-Z and the
  Latin-1 capitals move up by 32, everything else stays.\<close>

definition lowerChar :: "char \<Rightarrow> char" where
  "lowerChar c = (let n = (of_char c :: nat) in
     if (65 \<le> n \<and> n \<le> 90) \<or> (192 \<le> n \<and> n \<le> 214) \<or> (216 \<le> n \<and> n \<le> 222)
     then char_of (n + 32) else c)"

definition toLowerCase :: "string \<Rightarrow> string" where
  "toLowerCase s = map lowerChar s"

text \<open>\<^verbatim>\<open>s.includes(kw)\<close>: \<open>kw\<close> occurs in \<open>s\<close> as a contiguous block.\<close>

fun includesStr :: "string \<Rightarrow> string \<Rightarrow> bool" where
  "includesStr [] kw = (kw = [])"
| "includesStr (c # cs) kw = (take (length kw) (c # cs) = kw \<or> includesStr cs kw)"

text \<open>Decimal digits of a number, as \<^verbatim>\<open>Number.prototype.toString\<close> and the padded
  fields of \<^verbatim>\<open>toISOString\<close> print them.\<close>

definition digit :: "nat \<Rightarrow> char" where
  "digit n = char_of (48 + n)"

fun natToString :: "nat \<Rightarrow> string" where
  "natToString n = (if n < 10 then [digit n] else natToString (n div 10) @ [digit (n mod 10)])"

declare natToString.simps [simp del]

definition intToString :: "int \<Rightarrow> string" where
  "intToString i = (if i < 0 then CHR ''-'' # natToString (nat (- i)) else natToString (nat i))"

definition padStart :: "nat \<Rightarrow> string \<Rightarrow> string" where
  "padStart w s = replicate (w - length s) CHR ''0'' @ s"

definition pad :: "nat \<Rightarrow> int \<Rightarrow> string" where
  "pad w i = padStart w (natToString (nat i))"

section \<open>The Date object\<close>

text \<open>
  A \<^verbatim>\<open>Date\<close> holds a time value: milliseconds since 1970-01-01T00:00:00Z, an integer.
  The functions below are those of the ECMAScript specification (Day, DayFromYear,
  YearFromTime, MonthFromTime, DateFromTime, MakeDay, LocalTime, UTC), with YearFromTime
  ("the largest year whose first day is not after t") computed from an estimate that is
  off by at most one. The time values are those of a running clock, so the invalid date
  (NaN) does not occur.
\<close>

definition msPerDay :: int where
  "msPerDay = 86400000"

definition Day :: "int \<Rightarrow> int" where
  "Day t = t div msPerDay"

definition TimeWithinDay :: "int \<Rightarrow> int" where
  "TimeWithinDay t = t mod msPerDay"

definition DaysInYear :: "int \<Rightarrow> int" where
  "DaysInYear y = (if y mod 4 \<noteq> 0 then 365 else if y mod 100 \<noteq> 0 then 366
                   else if y mod 400 \<noteq> 0 then 365 else 366)"

definition DayFromYear :: "int \<Rightarrow> int" where
  "DayFromYear y = 365 * (y - 1970) + (y - 1969) div 4 - (y - 1901) div 100 + (y - 1601) div 400"

definition YearFromDay :: "int \<Rightarrow> int" where
  "YearFromDay d = (let y = 1970 + (400 * d) div 146097 in
     if d < DayFromYear y then y - 1
     else if DayFromYear (y + 1) \<le> d then y + 1
     else y)"

definition YearFromTime :: "int \<Rightarrow> int" where
  "YearFromTime t = YearFromDay (Day t)"

definition leapDay :: "int \<Rightarrow> int" where
  "leapDay y = (if DaysInYear y = 366 then 1 else 0)"

definition DayWithinYear :: "int \<Rightarrow> int" where
  "DayWithinYear t = Day t - DayFromYear (YearFromTime t)"

text \<open>The day within the year on which month \<open>m\<close> (0 to 11) starts.\<close>

definition monthStart :: "int \<Rightarrow> int \<Rightarrow> int" where
  "monthStart l m = (if m = 0 then 0 else if m = 1 then 31 else if m = 2 then 59 + l
     else if m = 3 then 90 + l else if m = 4 then 120 + l else if m = 5 then 151 + l
     else if m = 6 then 181 + l else if m = 7 then 212 + l else if m = 8 then 243 + l
     else if m = 9 then 273 + l else if m = 10 then 304 + l else 334 + l)"

definition MonthFromTime :: "int \<Rightarrow> int" where
  "MonthFromTime t = (let d = DayWithinYear t; l = leapDay (YearFromTime t) in
     if d < 31 then 0 else if d < 59 + l then 1 else if d < 90 + l then 2
     else if d < 120 + l then 3 else if d < 151 + l then 4 else if d < 181 + l then 5
     else if d < 212 + l then 6 else if d < 243 + l then 7 else if d < 273 + l then 8
     else if d < 304 + l then 9 else if d < 334 + l then 10 else 11)"

definition DateFromTime :: "int \<Rightarrow> int" where
  "DateFromTime t =
     DayWithinYear t - monthStart (leapDay (YearFromTime t)) (MonthFromTime t) + 1"

definition HourFromTime :: "int \<Rightarrow> int" where
  "HourFromTime t = (t div 3600000) mod 24"

definition MinFromTime :: "int \<Rightarrow> int" where
  "MinFromTime t = (t div 60000) mod 60"

definition SecFromTime :: "int \<Rightarrow> int" where
  "SecFromTime t = (t div 1000) mod 60"

definition msFromTime :: "int \<Rightarrow> int" where
  "msFromTime t = t mod 1000"

text \<open>\<^verbatim>\<open>MakeDay(year, month, date)\<close>: the day number of the first of the month, plus
  \<open>date - 1\<close>; a month outside 0 to 11 carries into the year.\<close>

definition MakeDay :: "int \<Rightarrow> int \<Rightarrow> int \<Rightarrow> int" where
  "MakeDay year month dt = (let ym = year + month div 12; mn = month mod 12 in
     DayFromYear ym + monthStart (leapDay ym) mn + dt - 1)"

definition MakeDate :: "int \<Rightarrow> int \<Rightarrow> int" where
  "MakeDate day time = day * msPerDay + time"

text \<open>
  The time zone of the running process is a parameter: \<open>z t True\<close> is the offset of
  local time from UTC at the UTC time value \<open>t\<close>, \<open>z t False\<close> the offset at the local
  time value \<open>t\<close> (\<^verbatim>\<open>LocalTZA(t, isUTC)\<close>).
\<close>

type_synonym zone = "int \<Rightarrow> bool \<Rightarrow> int"

definition LocalTime :: "zone \<Rightarrow> int \<Rightarrow> int" where
  "LocalTime z t = t + z t True"

definition UTC :: "zone \<Rightarrow> int \<Rightarrow> int" where
  "UTC z t = t - z t False"

definition getDate :: "zone \<Rightarrow> int \<Rightarrow> int" where
  "getDate z t = DateFromTime (LocalTime z t)"

definition setDate :: "zone \<Rightarrow> int \<Rightarrow> int \<Rightarrow> int" where
  "setDate z dt t = (let l = LocalTime z t in
     UTC z (MakeDate (MakeDay (YearFromTime l) (MonthFromTime l) dt) (TimeWithinDay l)))"

text \<open>\<^verbatim>\<open>toISOString\<close>: always in UTC; a year from 0 to 9999 has four digits, any other
  year a sign and six digits.\<close>

definition yearString :: "int \<Rightarrow> string" where
  "yearString y = (if 0 \<le> y \<and> y \<le> 9999 then pad 4 y
     else (if y < 0 then ''-'' else ''+'') @ pad 6 (abs y))"

definition toISOString :: "int \<Rightarrow> string" where
  "toISOString t = yearString (YearFromTime t) @ ''-'' @ pad 2 (MonthFromTime t + 1) @ ''-''
     @ pad 2 (DateFromTime t) @ ''T'' @ pad 2 (HourFromTime t) @ '':'' @ pad 2 (MinFromTime t)
     @ '':'' @ pad 2 (SecFromTime t) @ ''.'' @ pad 3 (msFromTime t) @ ''Z''"

text \<open>\<^verbatim>\<open>.slice(0, 10)\<close> of a string of at least ten code units.\<close>

definition slice10 :: "string \<Rightarrow> string" where
  "slice10 s = take 10 s"

section \<open>Suggestion tables (lib/videos.ts, lib/playlists.ts)\<close>

text \<open>The field \<^verbatim>\<open>keywords\<close> of an entry is \<open>keywords'\<close> here (\<open>keywords\<close> is reserved).\<close>

definition emDash :: string where
  "emDash = [CHR 0xE2, CHR 0x80, CHR 0x94]"

record VideoEntry =
  keywords' :: "string list"
  videoId :: string
  title :: string

definition VIDEO_MAP :: "VideoEntry list" where
  "VIDEO_MAP = [
    \<lparr>VideoEntry.keywords' = [''meditat'', ''mindful'', ''breathe'', ''breath'', ''calm'', ''relax''],
     VideoEntry.videoId = ''inpok4MKVLM'',
     VideoEntry.title = ''5-Minute Meditation You Can Do Anywhere''\<rparr>,
    \<lparr>VideoEntry.keywords' = [''run'', ''jog'', ''cardio'', ''marathon'', ''sprint''],
     VideoEntry.videoId = ''iSFpgQUGCVo'',
     VideoEntry.title = ''How to Start Running (and Actually Enjoy It)''\<rparr>,
    \<lparr>VideoEntry.keywords' = [''workout'', ''exercise'', ''gym'', ''lift'', ''strength'', ''fitness'', ''train''],
     VideoEntry.videoId = ''vc1E5CfRfos'',
     VideoEntry.title = ''The Science of Getting Stronger''\<rparr>,
    \<lparr>VideoEntry.keywords' = [''read'', ''book'', ''learn'', ''study''],
     VideoEntry.videoId = ''YjPDMHB_oEY'',
     VideoEntry.title = ''How to Read More Books''\<rparr>,
    \<lparr>VideoEntry.keywords' = [''journal'', ''write'', ''diary'', ''gratitud''],
     VideoEntry.videoId = ''dArgOrm98Bk'',
     VideoEntry.title = ''The Life-Changing Habit of Journaling''\<rparr>,
    \<lparr>VideoEntry.keywords' = [''sleep'', ''wake'', ''morning'', ''routine'', ''rise''],
     VideoEntry.videoId = ''nm1TxQj9IsQ'',
     VideoEntry.title = ''The Perfect Morning Routine''\<rparr>,
    \<lparr>VideoEntry.keywords' = [''water'', ''hydrat'', ''drink''],
     VideoEntry.videoId = ''aQiGDPuk3EQ'',
     VideoEntry.title = ''Why Staying Hydrated Is So Important''\<rparr>,
    \<lparr>VideoEntry.keywords' = [''diet'', ''eat'', ''food'', ''nutrition'', ''vegetable'', ''fruit'', ''cook''],
     VideoEntry.videoId = ''fqhYBTg73fw'',
     VideoEntry.title = ''How to Build Healthy Eating Habits''\<rparr>,
    \<lparr>VideoEntry.keywords' = [''walk'', ''step'', ''outdoor'', ''nature'', ''hike''],
     VideoEntry.videoId = ''bnHMDMxLKhw'',
     VideoEntry.title = ''The Surprising Benefits of Walking''\<rparr>,
    \<lparr>VideoEntry.keywords' = [''stretch'', ''yoga'', ''flex'', ''mobil''],
     VideoEntry.videoId = ''4pKly2JojMw'',
     VideoEntry.title = ''10-Minute Morning Yoga for Beginners''\<rparr>,
    \<lparr>VideoEntry.keywords' = [''cod'', ''program'', ''develop'', ''hack'', ''build'', ''software''],
     VideoEntry.videoId = ''NtfbWkxJTHw'',
     VideoEntry.title = ''How to Build a Coding Habit''\<rparr>,
    \<lparr>VideoEntry.keywords' = [''langua'', ''speak'', ''spanish'', ''french'', ''german'', ''chinese'', ''japanese''],
     VideoEntry.videoId = ''illApgaLgGA'',
     VideoEntry.title = ''How to Learn Any Language''\<rparr>,
    \<lparr>VideoEntry.keywords' = [''saving'', ''save'', ''money'', ''financ'', ''budget'', ''invest''],
     VideoEntry.videoId = ''HQzoZfc3GwQ'',
     VideoEntry.title = ''How to Build Better Money Habits''\<rparr>,
    \<lparr>VideoEntry.keywords' = [''social'', ''phone'', ''screen'', ''detox'', ''digital''],
     VideoEntry.videoId = ''OoFSMRHgSHA'',
     VideoEntry.title = ''How to Break Your Phone Addiction''\<rparr>,
    \<lparr>VideoEntry.keywords' = [''focus'', ''productiv'', ''deep work'', ''pomodoro'', ''distract''],
     VideoEntry.videoId = ''WXBA4eWskrc'',
     VideoEntry.title = ''How to Focus Like a Navy SEAL''\<rparr>,
    \<lparr>VideoEntry.keywords' = [''cold'', ''shower'', ''ice''],
     VideoEntry.videoId = ''NUYP3bBnBY0'',
     VideoEntry.title = ''Cold Showers '' @ emDash @ '' What Happens to Your Body''\<rparr>,
    \<lparr>VideoEntry.keywords' = [''vitamin'', ''supplement'', ''health''],
     VideoEntry.videoId = ''fLNJLIKMFsM'',
     VideoEntry.title = ''Daily Habits for Long-Term Health''\<rparr>,
    \<lparr>VideoEntry.keywords' = [''gratitude'', ''thankful'', ''positive'', ''mindset''],
     VideoEntry.videoId = ''WPPPFqsECz0'',
     VideoEntry.title = ''The Power of Gratitude''\<rparr>]"


definition FALLBACK_VIDEO :: "string \<times> string" where
  "FALLBACK_VIDEO = (''ZXsQAXx_ao0'', ''The Power of Small Habits '' @ emDash @ '' James Clear'')"

definition matchesVideo :: "string \<Rightarrow> VideoEntry \<Rightarrow> bool" where
  "matchesVideo lower entry = list_ex (\<lambda>kw. includesStr lower kw) (VideoEntry.keywords' entry)"

text \<open>The \<^verbatim>\<open>for (const entry of VIDEO_MAP)\<close> loop with its early return; the pair is
  \<^verbatim>\<open>{ videoId, title }\<close>.\<close>

fun suggestVideoLoop :: "string \<Rightarrow> VideoEntry list \<Rightarrow> string \<times> string" where
  "suggestVideoLoop lower [] = FALLBACK_VIDEO"
| "suggestVideoLoop lower (entry # rest) =
     (if matchesVideo lower entry then (VideoEntry.videoId entry, VideoEntry.title entry)
      else suggestVideoLoop lower rest)"

definition suggestVideo :: "string \<Rightarrow> string \<times> string" where
  "suggestVideo habitName = (let lower = toLowerCase habitName in suggestVideoLoop lower VIDEO_MAP)"

record PlaylistEntry =
  keywords' :: "string list"
  playlistId :: string
  title :: string
  description :: string
  category :: string
  emoji :: string
  color :: string

definition PLAYLIST_MAP :: "PlaylistEntry list" where
  "PLAYLIST_MAP = [
    \<lparr>PlaylistEntry.keywords' = [''focus'', ''productiv'', ''deep work'', ''study'', ''pomodoro'', ''work'', ''cod'', ''program'', ''develop''],
     playlistId = ''PLOfLYVXrwqBwbNnkVWUfFHFpbmmr5VJo_'',
     title = ''Deep Focus '' @ emDash @ '' Study & Work'',
     description = ''Instrumental music for deep concentration'',
     category = ''Focus'', emoji = [CHR 0xF0, CHR 0x9F, CHR 0x8E, CHR 0xAF], color = ''#EEF2FF''\<rparr>,
    \<lparr>PlaylistEntry.keywords' = [''workout'', ''gym'', ''lift'', ''strength'', ''fitness'', ''train'', ''exercise''],
     playlistId = ''PLx65qkgCWNJIgq1Mj0rtsthQSXe3bQoLt'',
     title = ''Ultimate Workout Motivation'',
     description = ''High energy tracks to power your training'',
     category = ''Workout'', emoji = [CHR 0xF0, CHR 0x9F, CHR 0x92, CHR 0xAA], color = ''#FFF1F2''\<rparr>,
    \<lparr>PlaylistEntry.keywords' = [''run'', ''jog'', ''cardio'', ''marathon'', ''sprint''],
     playlistId = ''PLgzTt0k8mXzEk586ze4BjKDn2KKOIUmMX'',
     title = ''Running Motivation Mix'',
     description = ''Upbeat beats to keep your pace up'',
     category = ''Running'', emoji = [CHR 0xF0, CHR 0x9F, CHR 0x8F, CHR 0x83], color = ''#FFF7ED''\<rparr>,
    \<lparr>PlaylistEntry.keywords' = [''meditat'', ''mindful'', ''breathe'', ''breath'', ''calm'', ''relax''],
     playlistId = ''PLQ_PIlf6OzqJpURN4dFxHV82l4vV7OEKZ'',
     title = ''Meditation & Mindfulness'',
     description = ''Calm ambient sounds for meditation'',
     category = ''Calm'', emoji = [CHR 0xF0, CHR 0x9F, CHR 0xA7, CHR 0x98], color = ''#F0FDF4''\<rparr>,
    \<lparr>PlaylistEntry.keywords' = [''sleep'', ''rest'', ''nap'', ''bedtime''],
     playlistId = ''PLtBQA7FZXBU2E2RcRLNnFHhzNKERnMV-L'',
     title = ''Sleep Sounds & Relaxation'',
     description = ''Gentle sounds to help you drift off'',
     category = ''Sleep'', emoji = [CHR 0xF0, CHR 0x9F, CHR 0x98, CHR 0xB4], color = ''#F5F3FF''\<rparr>,
    \<lparr>PlaylistEntry.keywords' = [''yoga'', ''stretch'', ''flex'', ''mobil'', ''pilates''],
     playlistId = ''PLgzTt0k8mXzHQCkrHxBTQNLIUUMm8XEIQ'',
     title = ''Yoga Flow Music'',
     description = ''Peaceful music for flow and flexibility'',
     category = ''Yoga'', emoji = [CHR 0xF0, CHR 0x9F, CHR 0x8C, CHR 0xBF], color = ''#ECFDF5''\<rparr>,
    \<lparr>PlaylistEntry.keywords' = [''morning'', ''wake'', ''rise'', ''routine''],
     playlistId = ''PLgzTt0k8mXzEk586ze4BjKDn2KKOIUmMX'',
     title = ''Morning Energy Boost'',
     description = ''Start your day with positive vibes'',
     category = ''Morning'', emoji = [CHR 0xE2, CHR 0x98, CHR 0x80] @ [CHR 0xEF, CHR 0xB8, CHR 0x8F], color = ''#FFFBEB''\<rparr>,
    \<lparr>PlaylistEntry.keywords' = [''read'', ''book'', ''learn''],
     playlistId = ''PLOfLYVXrwqBwbNnkVWUfFHFpbmmr5VJo_'',
     title = ''Reading Ambience'',
     description = ''Calm background music for reading'',
     category = ''Reading'', emoji = [CHR 0xF0, CHR 0x9F, CHR 0x93, CHR 0x9A], color = ''#EFF6FF''\<rparr>,
    \<lparr>PlaylistEntry.keywords' = [''journal'', ''write'', ''diary''],
     playlistId = ''PLQ_PIlf6OzqJpURN4dFxHV82l4vV7OEKZ'',
     title = ''Journaling Atmosphere'',
     description = ''Reflective ambient sounds for writing'',
     category = ''Journal'', emoji = [CHR 0xE2, CHR 0x9C, CHR 0x8D] @ [CHR 0xEF, CHR 0xB8, CHR 0x8F], color = ''#FDF4FF''\<rparr>,
    \<lparr>PlaylistEntry.keywords' = [''walk'', ''step'', ''outdoor'', ''nature'', ''hike''],
     playlistId = ''PLgzTt0k8mXzHQCkrHxBTQNLIUUMm8XEIQ'',
     title = ''Nature Walk Vibes'',
     description = ''Easy listening for your daily walk'',
     category = ''Walk'', emoji = [CHR 0xF0, CHR 0x9F, CHR 0x9A, CHR 0xB6], color = ''#F0FDF4''\<rparr>,
    \<lparr>PlaylistEntry.keywords' = [''cook'', ''food'', ''eat'', ''nutrition'', ''diet'', ''meal''],
     playlistId = ''PLx65qkgCWNJIgq1Mj0rtsthQSXe3bQoLt'',
     title = ''Cooking Vibes'',
     description = ''Feel-good music for the kitchen'',
     category = ''Cooking'', emoji = [CHR 0xF0, CHR 0x9F, CHR 0x8D, CHR 0xB3], color = ''#FFF7ED''\<rparr>,
    \<lparr>PlaylistEntry.keywords' = [''langua'', ''spanish'', ''french'', ''german'', ''chinese'', ''japanese'', ''speak''],
     playlistId = ''PLOfLYVXrwqBwbNnkVWUfFHFpbmmr5VJo_'',
     title = ''Language Learning Focus'',
     description = ''Concentration music for language study'',
     category = ''Language'', emoji = [CHR 0xF0, CHR 0x9F, CHR 0x8C, CHR 0x8D], color = ''#EEF2FF''\<rparr>,
    \<lparr>PlaylistEntry.keywords' = [''cold'', ''shower'', ''ice''],
     playlistId = ''PLx65qkgCWNJIgq1Mj0rtsthQSXe3bQoLt'',
     title = ''Cold Shower Pump-Up'',
     description = ''High energy to get you through it'',
     category = ''Energy'', emoji = [CHR 0xE2, CHR 0x9A, CHR 0xA1], color = ''#FFF1F2''\<rparr>,
    \<lparr>PlaylistEntry.keywords' = [''gratitude'', ''thankful'', ''positive'', ''mindset'', ''affirm''],
     playlistId = ''PLQ_PIlf6OzqJpURN4dFxHV82l4vV7OEKZ'',
     title = ''Positive Mindset Music'',
     description = ''Uplifting tracks for a grateful mindset'',
     category = ''Mindset'', emoji = [CHR 0xE2, CHR 0x9C, CHR 0xA8], color = ''#FFFBEB''\<rparr>,
    \<lparr>PlaylistEntry.keywords' = [''saving'', ''money'', ''financ'', ''budget'', ''invest''],
     playlistId = ''PLOfLYVXrwqBwbNnkVWUfFHFpbmmr5VJo_'',
     title = ''Deep Work '' @ emDash @ '' Finance Mode'',
     description = ''Focus music for planning and analysis'',
     category = ''Finance'', emoji = [CHR 0xF0, CHR 0x9F, CHR 0x92, CHR 0xB0], color = ''#F0FDF4''\<rparr>]"

definition FALLBACK_PLAYLIST :: PlaylistEntry where
  "FALLBACK_PLAYLIST =
    \<lparr>PlaylistEntry.keywords' = [],
     playlistId = ''PLx65qkgCWNJIgq1Mj0rtsthQSXe3bQoLt'',
     title = ''Motivation & Success'',
     description = ''Fuel your habits with great music'',
     category = ''Motivation'', emoji = [CHR 0xF0, CHR 0x9F, CHR 0x9A, CHR 0x80], color = ''#EEF2FF''\<rparr>"

definition matchesPlaylist :: "string \<Rightarrow> PlaylistEntry \<Rightarrow> bool" where
  "matchesPlaylist lower entry = list_ex (\<lambda>kw. includesStr lower kw) (PlaylistEntry.keywords' entry)"

fun suggestPlaylistLoop :: "string \<Rightarrow> PlaylistEntry list \<Rightarrow> PlaylistEntry" where
  "suggestPlaylistLoop lower [] = FALLBACK_PLAYLIST"
| "suggestPlaylistLoop lower (entry # rest) =
     (if matchesPlaylist lower entry then entry else suggestPlaylistLoop lower rest)"

definition suggestPlaylist :: "string \<Rightarrow> PlaylistEntry" where
  "suggestPlaylist habitName =
     (let lower = toLowerCase habitName in suggestPlaylistLoop lower PLAYLIST_MAP)"

section \<open>Habits and completions (App.tsx)\<close>

text \<open>The field \<^verbatim>\<open>id\<close> of a habit is \<open>habit_id\<close> here (\<open>id\<close> is the identity function).
  The interface declares \<^verbatim>\<open>videoTitle: string\<close>, but the value \<^verbatim>\<open>addHabit\<close> stores there is
  \<^verbatim>\<open>undefined\<close> (see below), so the field is optional here and \<open>None\<close> is \<^verbatim>\<open>undefined\<close>.\<close>

record Habit =
  habit_id :: string
  name :: string
  createdAt :: string
  videoId :: string
  videoTitle :: "string option"
  playlistId :: string
  playlistTitle :: string
  playlistCategory :: string
  playlistEmoji :: string
  playlistColor :: string

record Completion =
  habitId :: string
  date :: string

definition HABITS_KEY :: string where
  "HABITS_KEY = ''@habits''"

definition COMPLETIONS_KEY :: string where
  "COMPLETIONS_KEY = ''@completions''"

text \<open>The helpers read the clock with \<^verbatim>\<open>new Date()\<close>; the time value read is the
  parameter \<open>now\<close>.\<close>

definition todayStr :: "int \<Rightarrow> string" where
  "todayStr now = slice10 (toISOString now)"

definition lastNDays :: "zone \<Rightarrow> nat \<Rightarrow> int \<Rightarrow> string list" where
  "lastNDays z n now =
     map (\<lambda>i. slice10 (toISOString (setDate z (getDate z now - int i) now))) (rev [0..<n])"

text \<open>The loop of \<^verbatim>\<open>getStreak\<close>, with its variables \<open>i\<close>, \<open>cur\<close> and \<open>streak\<close>.\<close>

function streakLoop :: "zone \<Rightarrow> string list \<Rightarrow> nat \<Rightarrow> int \<Rightarrow> nat \<Rightarrow> nat" where
  "streakLoop z dates i cur streak =
     (if i < 365 then
        (let d = slice10 (toISOString cur) in
         if d \<in> set dates then streakLoop z dates (i + 1) (setDate z (getDate z cur - 1) cur) (streak + 1)
         else if i = 0 then streakLoop z dates (i + 1) (setDate z (getDate z cur - 1) cur) streak
         else streak)
      else streak)"
  by pat_completeness auto
termination
  by (relation "measure (\<lambda>(z, dates, i, cur, streak). 365 - i)") auto

declare streakLoop.simps [simp del]

definition getStreak :: "zone \<Rightarrow> int \<Rightarrow> string \<Rightarrow> Completion list \<Rightarrow> nat" where
  "getStreak z now habitId' completions =
     (let dates = rev (sort (map date (filter (\<lambda>c. habitId c = habitId') completions))) in
      if dates = [] then 0 else streakLoop z dates 0 now 0)"

section \<open>The App component: state and persistence\<close>

text \<open>
  \<^verbatim>\<open>JSON.stringify\<close> and \<^verbatim>\<open>JSON.parse\<close> belong to the platform and are parameters, at
  the two types they are used at. A parse that throws is \<open>None\<close>.
\<close>

record JSON =
  stringifyHabits :: "Habit list \<Rightarrow> string"
  parseHabits :: "string \<Rightarrow> Habit list option"
  stringifyCompletions :: "Completion list \<Rightarrow> string"
  parseCompletions :: "string \<Rightarrow> Completion list option"

text \<open>The three state variables of \<^verbatim>\<open>App\<close> and the contents of AsyncStorage.\<close>

record AppState =
  habits :: "Habit list"
  completions :: "Completion list"
  input :: string
  storage :: "string \<rightharpoonup> string"

definition initialState :: "(string \<rightharpoonup> string) \<Rightarrow> AppState" where
  "initialState sto = \<lparr>habits = [], completions = [], input = [], storage = sto\<rparr>"

text \<open>\<^verbatim>\<open>if (h)\<close> on the result of \<^verbatim>\<open>getItem\<close>: null and the empty string are falsy.\<close>

definition truthy :: "string option \<Rightarrow> bool" where
  "truthy v = (case v of None \<Rightarrow> False | Some s \<Rightarrow> s \<noteq> [])"

text \<open>The effect that runs once at start. A parse that throws rejects the promise of the
  effect: what was set before stays, nothing after it runs.\<close>

definition load :: "JSON \<Rightarrow> AppState \<Rightarrow> AppState" where
  "load J st = (let h = storage st HABITS_KEY; c = storage st COMPLETIONS_KEY in
     case (if truthy h then map_option (\<lambda>v. st\<lparr>habits := v\<rparr>) (parseHabits J (the h)) else Some st) of
       None \<Rightarrow> st
     | Some st1 \<Rightarrow>
         (if truthy c then
            (case parseCompletions J (the c) of
               None \<Rightarrow> st1
             | Some v \<Rightarrow> st1\<lparr>completions := v\<rparr>)
          else st1))"

definition saveHabits :: "JSON \<Rightarrow> Habit list \<Rightarrow> AppState \<Rightarrow> AppState" where
  "saveHabits J updated st =
     st\<lparr>habits := updated, storage := (storage st)(HABITS_KEY \<mapsto> stringifyHabits J updated)\<rparr>"

definition saveCompletions :: "JSON \<Rightarrow> Completion list \<Rightarrow> AppState \<Rightarrow> AppState" where
  "saveCompletions J updated st =
     st\<lparr>completions := updated,
        storage := (storage st)(COMPLETIONS_KEY \<mapsto> stringifyCompletions J updated)\<rparr>"

text \<open>Reading a property of the object \<^verbatim>\<open>{ videoId, title }\<close> that \<open>suggestVideo\<close> returns:
  a property the object does not have reads as \<^verbatim>\<open>undefined\<close>.\<close>

definition videoProperty :: "string \<Rightarrow> string \<times> string \<Rightarrow> string option" where
  "videoProperty key r = (if key = ''videoId'' then Some (fst r)
     else if key = ''title'' then Some (snd r) else None)"

text \<open>\<^verbatim>\<open>addHabit\<close>: \<open>nowId\<close> is the clock read by \<^verbatim>\<open>Date.now()\<close>, \<open>nowCreated\<close> the one
  read by \<^verbatim>\<open>new Date()\<close>. The destructuring \<^verbatim>\<open>const { videoId, videoTitle } = suggestVideo(name)\<close>
  reads the properties \<^verbatim>\<open>videoId\<close> and \<^verbatim>\<open>videoTitle\<close>; the object has \<^verbatim>\<open>title\<close>, not
  \<^verbatim>\<open>videoTitle\<close>.\<close>

definition addHabit :: "JSON \<Rightarrow> int \<Rightarrow> int \<Rightarrow> AppState \<Rightarrow> AppState" where
  "addHabit J nowId nowCreated st = (let name' = trim (input st) in
     if name' = [] then st
     else
       (let suggestion = suggestVideo name';
            videoId' = fst suggestion;
            videoTitle' = videoProperty ''videoTitle'' suggestion;
            playlist = suggestPlaylist name';
            habit = \<lparr>habit_id = intToString nowId,
                     name = name',
                     createdAt = toISOString nowCreated,
                     videoId = videoId',
                     videoTitle = videoTitle',
                     playlistId = PlaylistEntry.playlistId playlist,
                     playlistTitle = PlaylistEntry.title playlist,
                     playlistCategory = category playlist,
                     playlistEmoji = emoji playlist,
                     playlistColor = color playlist\<rparr>
        in (saveHabits J (habits st @ [habit]) st)\<lparr>input := []\<rparr>))"

text \<open>\<^verbatim>\<open>deleteHabit\<close> shows an alert with two buttons; the handler of the pressed one runs.
  Both filters read the collections of the render that showed the alert.\<close>

datatype AlertButton = Cancel | Delete

definition deleteHabit :: "JSON \<Rightarrow> string \<Rightarrow> AlertButton \<Rightarrow> AppState \<Rightarrow> AppState" where
  "deleteHabit J id' pressed st = (case pressed of
       Cancel \<Rightarrow> st
     | Delete \<Rightarrow>
         saveCompletions J (filter (\<lambda>c. habitId c \<noteq> id') (completions st))
           (saveHabits J (filter (\<lambda>h. habit_id h \<noteq> id') (habits st)) st))"

definition toggleComplete :: "JSON \<Rightarrow> int \<Rightarrow> string \<Rightarrow> AppState \<Rightarrow> AppState" where
  "toggleComplete J now habitId' st = (let t = todayStr now;
       already = list_ex (\<lambda>c. habitId c = habitId' \<and> date c = t) (completions st);
       updated = (if already
                  then filter (\<lambda>c. \<not> (habitId c = habitId' \<and> date c = t)) (completions st)
                  else completions st @ [\<lparr>habitId = habitId', date = t\<rparr>])
     in saveCompletions J updated st)"

section \<open>Sample values for the examples\<close>

text \<open>Two habits as \<open>addHabit\<close> builds them, two completions and a time zone one hour
  east of UTC, on which the theorems below are instantiated. \<open>sampleJSON\<close> stands in for the platform's JSON on
  exactly these collections: it tells the empty collection from the sample one.\<close>

definition sampleHabits :: "Habit list" where
  "sampleHabits =
    [\<lparr>habit_id = ''1'', name = ''Run'', createdAt = ''1970-01-01T00:00:00.001Z'',
      videoId = ''iSFpgQUGCVo'', videoTitle = None,
      playlistId = ''PLgzTt0k8mXzEk586ze4BjKDn2KKOIUmMX'', playlistTitle = ''Running Motivation Mix'',
      playlistCategory = ''Running'', playlistEmoji = [CHR 0xF0, CHR 0x9F, CHR 0x8F, CHR 0x83],
      playlistColor = ''#FFF7ED''\<rparr>,
     \<lparr>habit_id = ''2'', name = ''Nap'', createdAt = ''1970-01-01T00:00:00.002Z'',
      videoId = ''ZXsQAXx_ao0'', videoTitle = None,
      playlistId = ''PLtBQA7FZXBU2E2RcRLNnFHhzNKERnMV-L'', playlistTitle = ''Sleep Sounds & Relaxation'',
      playlistCategory = ''Sleep'', playlistEmoji = [CHR 0xF0, CHR 0x9F, CHR 0x98, CHR 0xB4],
      playlistColor = ''#F5F3FF''\<rparr>]"

definition sampleCompletions :: "Completion list" where
  "sampleCompletions =
    [\<lparr>habitId = ''1'', date = ''1970-01-01''\<rparr>, \<lparr>habitId = ''2'', date = ''1970-01-01''\<rparr>]"

definition sampleJSON :: JSON where
  "sampleJSON =
    \<lparr>stringifyHabits = (\<lambda>hs. if hs = [] then ''[]'' else ''[habits]''),
     parseHabits = (\<lambda>s. if s = ''[]'' then Some [] else if s = ''[habits]'' then Some sampleHabits
                        else None),
     stringifyCompletions = (\<lambda>cs. if cs = [] then ''[]'' else ''[completions]''),
     parseCompletions = (\<lambda>s. if s = ''[]'' then Some []
                             else if s = ''[completions]'' then Some sampleCompletions else None)\<rparr>"

definition sampleState :: AppState where
  "sampleState = \<lparr>habits = sampleHabits, completions = sampleCompletions, input = [],
                   storage = Map.empty\<rparr>"

definition zoneEast :: zone where
  "zoneEast = (\<lambda>t isUTC. 3600000)"

text \<open>The offsets of the zone America/New_York around the start of daylight time in
  2024: five hours behind UTC until 2024-03-10T07:00Z (02:00 local time), four hours
  behind from then on. A local time in the skipped hour is read with the offset before
  the change.\<close>

definition zoneNewYork :: zone where
  "zoneNewYork = (\<lambda>t isUTC.
     if isUTC then (if t < 1710054000000 then - 18000000 else - 14400000)
     else (if t < 1710039600000 then - 18000000 else - 14400000))"

section \<open>Notions the properties are stated with\<close>

text \<open>The dates on which a habit has a completion in a collection.\<close>

definition habitDates :: "string \<Rightarrow> Completion list \<Rightarrow> string set" where
  "habitDates h cs = date ` {c \<in> set cs. habitId c = h}"

text \<open>At most one completion for each pair of habit and date.\<close>

definition atMostOnePerDay :: "Completion list \<Rightarrow> bool" where
  "atMostOnePerDay cs = distinct (map (\<lambda>c. (habitId c, date c)) cs)"

text \<open>A case-insensitive substring match: the keyword occurs in the name once both are
  put in lower case.\<close>

definition containsIgnoringCase :: "string \<Rightarrow> string \<Rightarrow> bool" where
  "containsIgnoringCase s kw = (\<exists>p q. toLowerCase s = p @ toLowerCase kw @ q)"

text \<open>The date string the loop of \<open>getStreak\<close> examines at day offset \<open>i\<close>: \<open>cur\<close> after
  \<open>i\<close> runs of \<^verbatim>\<open>cur.setDate(cur.getDate() - 1)\<close>, through \<^verbatim>\<open>toISOString().slice(0, 10)\<close>.\<close>

definition walkDate :: "zone \<Rightarrow> int \<Rightarrow> nat \<Rightarrow> string" where
  "walkDate z now i = slice10 (toISOString (((\<lambda>cur. setDate z (getDate z cur - 1) cur) ^^ i) now))"

text \<open>The streak as the specification words it, over the day offsets 0 to 364: today
  counts when it is done and is passed over when it is not; from yesterday on, the days
  count as long as they are done, and the first day not done ends the walk.\<close>

definition streakOfWalk :: "(nat \<Rightarrow> bool) \<Rightarrow> nat" where
  "streakOfWalk done = (if done 0 then 1 else 0) + length (takeWhile done [1..<365])"

text \<open>A time zone with one offset all year.\<close>

definition fixedOffset :: "zone \<Rightarrow> bool" where
  "fixedOffset z = (\<exists>k. \<forall>t isUTC. z t isUTC = k)"

text \<open>The calendar day in the local time zone, as the specification describes the dates.\<close>

definition localDayStr :: "zone \<Rightarrow> int \<Rightarrow> string" where
  "localDayStr z now = slice10 (toISOString (LocalTime z now))"

text \<open>The number a string of decimal digits stands for.\<close>

definition decimalValue :: "string \<Rightarrow> nat" where
  "decimalValue s = foldl (\<lambda>a c. 10 * a + (of_char c - 48)) 0 s"

section \<open>The streak depends on the dates of the habit only\<close>

lemma streakLoop_set:
  "set dates = set dates' \<Longrightarrow> streakLoop z dates i cur s = streakLoop z dates' i cur s"
proof (induction z dates i cur s rule: streakLoop.induct)
  case (1 z dates i cur streak)
  note eq = \<open>set dates = set dates'\<close>
  show ?case
  proof (cases "i < 365")
    case False
    then show ?thesis by (simp add: streakLoop.simps [of z _ i])
  next
    case True
    show ?thesis
    proof (cases "slice10 (toISOString cur) \<in> set dates")
      case yes: True
      then have yes': "slice10 (toISOString cur) \<in> set dates'" using eq by simp
      show ?thesis
        using "1.IH"(1) [OF True refl yes eq] True yes yes'
        by (simp add: streakLoop.simps [of z _ i])
    next
      case no: False
      then have no': "slice10 (toISOString cur) \<notin> set dates'" using eq by simp
      show ?thesis
      proof (cases "i = 0")
        case z: True
        show ?thesis
          using "1.IH"(2) [OF True refl no z eq] True no no' z
          by (simp add: streakLoop.simps [of z _ 0])
      next
        case nz: False
        show ?thesis using True no no' nz
          by (simp add: streakLoop.simps [of z _ i])
      qed
    qed
  qed
qed

lemma set_sorted_dates:
  "set (rev (sort (map date (filter (\<lambda>c. habitId c = h) cs)))) = habitDates h cs"
  by (auto simp: habitDates_def)

lemma getStreak_habitDates:
  assumes "habitDates h cs = habitDates h cs'"
  shows "getStreak z now h cs = getStreak z now h cs'"
proof -
  let ?d = "\<lambda>cs. rev (sort (map date (filter (\<lambda>c. habitId c = h) cs)))"
  have eq: "set (?d cs) = set (?d cs')"
    using assms by (simp only: set_sorted_dates)
  have "(?d cs = []) = (?d cs' = [])"
    using eq by (metis set_empty)
  then show ?thesis
    unfolding getStreak_def Let_def using streakLoop_set [OF eq] by auto
qed

lemma habitDates_iff:
  "d \<in> habitDates h cs \<longleftrightarrow> \<lparr>habitId = h, date = d\<rparr> \<in> set cs"
proof
  assume "d \<in> habitDates h cs"
  then obtain c where c: "c \<in> set cs" "habitId c = h" "date c = d"
    by (auto simp: habitDates_def)
  then have "c = \<lparr>habitId = h, date = d\<rparr>" by simp
  with c show "\<lparr>habitId = h, date = d\<rparr> \<in> set cs" by simp
next
  assume "\<lparr>habitId = h, date = d\<rparr> \<in> set cs"
  then show "d \<in> habitDates h cs"
    by (force simp: habitDates_def)
qed

lemma toggle_completions:
  "completions (toggleComplete J now h st) =
     (if \<exists>c \<in> set (completions st). habitId c = h \<and> date c = todayStr now
      then filter (\<lambda>c. \<not> (habitId c = h \<and> date c = todayStr now)) (completions st)
      else completions st @ [\<lparr>habitId = h, date = todayStr now\<rparr>])"
  by (simp add: toggleComplete_def saveCompletions_def Let_def list_ex_iff)

lemma today_completed_iff:
  "(\<exists>c \<in> set cs. habitId c = h \<and> date c = t) \<longleftrightarrow> \<lparr>habitId = h, date = t\<rparr> \<in> set cs"
proof
  assume "\<exists>c \<in> set cs. habitId c = h \<and> date c = t"
  then obtain c where c: "c \<in> set cs" "habitId c = h" "date c = t" by blast
  then have "c = \<lparr>habitId = h, date = t\<rparr>" by simp
  with c show "\<lparr>habitId = h, date = t\<rparr> \<in> set cs" by simp
next
  assume "\<lparr>habitId = h, date = t\<rparr> \<in> set cs"
  then show "\<exists>c \<in> set cs. habitId c = h \<and> date c = t" by force
qed

lemma todayStr_epoch: "todayStr 0 = ''1970-01-01''"
  by code_simp

lemma habitDates_toggle_twice:
  assumes "todayStr now2 = todayStr now1"
  shows "habitDates h (completions (toggleComplete J now2 h (toggleComplete J now1 h st)))
     = habitDates h (completions st)"
proof (rule set_eqI)
  fix d
  let ?t = "\<lparr>habitId = h, date = todayStr now1\<rparr>"
  have m: "(\<not> (habitId c = h \<and> date c = todayStr now1)) = (c \<noteq> ?t)" for c
    by (cases c) auto
  show "d \<in> habitDates h (completions (toggleComplete J now2 h (toggleComplete J now1 h st)))
     \<longleftrightarrow> d \<in> habitDates h (completions st)"
    unfolding habitDates_iff toggle_completions today_completed_iff assms m
    by auto
qed

section \<open>Toggling today's completion\<close>

text \<open>
  C2. For every habit id, collection and clock reading: when the collection holds
  a completion of the habit for today, \<open>toggleComplete\<close> yields the collection without
  it (every copy removed, the rest in place); otherwise it yields the collection with
  \<open>{habitId, today}\<close> appended. Nothing depends on the habit existing: the habits are
  not read and stay as they are, and the new collection is what is persisted.
\<close>

theorem toggleComplete_flips_today:
  "((\<exists>c \<in> set (completions st). habitId c = h \<and> date c = todayStr now) \<longrightarrow>
       completions (toggleComplete J now h st) =
         filter (\<lambda>c. \<not> (habitId c = h \<and> date c = todayStr now)) (completions st)
       \<and> \<not> (\<exists>c \<in> set (completions (toggleComplete J now h st)).
                habitId c = h \<and> date c = todayStr now))
   \<and> (\<not> (\<exists>c \<in> set (completions st). habitId c = h \<and> date c = todayStr now) \<longrightarrow>
       completions (toggleComplete J now h st) =
         completions st @ [\<lparr>habitId = h, date = todayStr now\<rparr>])
   \<and> habits (toggleComplete J now h st) = habits st
   \<and> storage (toggleComplete J now h st) COMPLETIONS_KEY =
       Some (stringifyCompletions J (completions (toggleComplete J now h st)))"
  by (simp add: toggle_completions) (auto simp add: toggleComplete_def saveCompletions_def Let_def list_ex_iff)

theorem toggleComplete_flips_today_witness:
  "completions (toggleComplete sampleJSON 0 ''1'' (initialState Map.empty)) =
     [\<lparr>habitId = ''1'', date = ''1970-01-01''\<rparr>]
   \<and> completions (toggleComplete sampleJSON 0 ''1'' sampleState) =
     [\<lparr>habitId = ''2'', date = ''1970-01-01''\<rparr>]"
  using toggleComplete_flips_today [of "initialState Map.empty" "''1''" 0 sampleJSON]
    toggleComplete_flips_today [of sampleState "''1''" 0 sampleJSON]
  by (simp add: initialState_def sampleState_def sampleCompletions_def todayStr_epoch)

section \<open>Deleting a habit, and the invariant of the completions\<close>

lemma atMostOnePerDay_filter: "atMostOnePerDay cs \<Longrightarrow> atMostOnePerDay (filter P cs)"
  unfolding atMostOnePerDay_def by (rule distinct_map_filter)

lemma atMostOnePerDay_append:
  assumes "atMostOnePerDay cs" "\<not> (\<exists>c \<in> set cs. habitId c = h \<and> date c = t)"
  shows "atMostOnePerDay (cs @ [\<lparr>habitId = h, date = t\<rparr>])"
  using assms unfolding atMostOnePerDay_def by auto

lemma completions_deleteHabit:
  "completions (deleteHabit J i b st) =
     (case b of Cancel \<Rightarrow> completions st | Delete \<Rightarrow> filter (\<lambda>c. habitId c \<noteq> i) (completions st))"
  by (simp add: deleteHabit_def saveCompletions_def saveHabits_def split: AlertButton.split)

lemma habits_deleteHabit:
  "habits (deleteHabit J i b st) =
     (case b of Cancel \<Rightarrow> habits st | Delete \<Rightarrow> filter (\<lambda>h. habit_id h \<noteq> i) (habits st))"
  by (simp add: deleteHabit_def saveCompletions_def saveHabits_def split: AlertButton.split)

lemma completions_addHabit: "completions (addHabit J n1 n2 st) = completions st"
  by (simp add: addHabit_def saveHabits_def Let_def split: prod.split)

text \<open>
  C3. A collection with at most one completion for each pair of habit and date
  still has that property after \<open>toggleComplete\<close>, after \<open>deleteHabit\<close> (whichever
  button is pressed) and after \<open>addHabit\<close>, which leaves the completions untouched.
\<close>

theorem completions_invariant_preserved:
  assumes "atMostOnePerDay (completions st)"
  shows "atMostOnePerDay (completions (toggleComplete J now h st))
       \<and> atMostOnePerDay (completions (deleteHabit J i pressed st))
       \<and> completions (addHabit J nowId nowCreated st) = completions st
       \<and> atMostOnePerDay (completions (addHabit J nowId nowCreated st))"
proof -
  have "atMostOnePerDay (completions (toggleComplete J now h st))"
    unfolding toggle_completions
    using atMostOnePerDay_filter [OF assms] atMostOnePerDay_append [OF assms]
    by (simp del: bex_simps)
  moreover have "atMostOnePerDay (completions (deleteHabit J i pressed st))"
    unfolding completions_deleteHabit
    using atMostOnePerDay_filter [OF assms] assms by (cases pressed) simp_all
  ultimately show ?thesis using assms by (simp add: completions_addHabit)
qed

theorem completions_invariant_preserved_witness:
  "atMostOnePerDay (completions sampleState)
   \<and> atMostOnePerDay (completions (toggleComplete sampleJSON 0 ''1'' sampleState))
   \<and> atMostOnePerDay (completions (deleteHabit sampleJSON ''1'' Delete sampleState))
   \<and> atMostOnePerDay (completions (addHabit sampleJSON 0 0 sampleState))"
proof -
  have h: "atMostOnePerDay (completions sampleState)"
    by (simp add: atMostOnePerDay_def sampleState_def sampleCompletions_def)
  from completions_invariant_preserved [OF h, of sampleJSON 0 "''1''" "''1''" Delete 0 0] h
  show ?thesis by simp
qed

text \<open>
  C4. Toggling a habit twice on the same day (two clock readings with the same
  date string) leaves its streak as it was, whatever the time zone and the moment the
  streak is computed at.
\<close>

theorem streak_unchanged_by_double_toggle:
  assumes "todayStr now2 = todayStr now1"
  shows "getStreak z now' h (completions (toggleComplete J now2 h (toggleComplete J now1 h st)))
     = getStreak z now' h (completions st)"
  by (rule getStreak_habitDates) (rule habitDates_toggle_twice [OF assms])

theorem streak_unchanged_by_double_toggle_witness:
  "todayStr 1000 = todayStr 0
   \<and> getStreak zoneEast 0 ''1''
     (completions (toggleComplete sampleJSON 1000 ''1'' (toggleComplete sampleJSON 0 ''1'' sampleState)))
   = 1"
proof -
  have d: "todayStr 1000 = todayStr 0"
    by code_simp
  have "getStreak zoneEast 0 ''1'' (completions sampleState) = 1"
    by code_simp
  then show ?thesis
    using d streak_unchanged_by_double_toggle [OF d, of zoneEast 0 "''1''" sampleJSON sampleState]
    by simp
qed

text \<open>
  C5. Confirming the deletion of habit \<open>i\<close> removes the habits whose id is \<open>i\<close>
  and the completions whose habitId is \<open>i\<close>, and nothing else: the habits and the
  completions of every other id are the same, in the same order. Cancelling changes
  nothing.
\<close>

theorem deleteHabit_cascades:
  "habits (deleteHabit J i Delete st) = filter (\<lambda>h. habit_id h \<noteq> i) (habits st)
   \<and> completions (deleteHabit J i Delete st) = filter (\<lambda>c. habitId c \<noteq> i) (completions st)
   \<and> (\<forall>h. h \<in> set (habits (deleteHabit J i Delete st)) \<longleftrightarrow>
            h \<in> set (habits st) \<and> habit_id h \<noteq> i)
   \<and> (\<forall>c. c \<in> set (completions (deleteHabit J i Delete st)) \<longleftrightarrow>
            c \<in> set (completions st) \<and> habitId c \<noteq> i)
   \<and> (\<forall>k. k \<noteq> i \<longrightarrow>
          filter (\<lambda>h. habit_id h = k) (habits (deleteHabit J i Delete st)) =
            filter (\<lambda>h. habit_id h = k) (habits st)
        \<and> filter (\<lambda>c. habitId c = k) (completions (deleteHabit J i Delete st)) =
            filter (\<lambda>c. habitId c = k) (completions st))
   \<and> deleteHabit J i Cancel st = st"
proof -
  have "filter (\<lambda>h. habit_id h = k) (filter (\<lambda>h. habit_id h \<noteq> i) hs) =
        filter (\<lambda>h. habit_id h = k) hs" if "k \<noteq> i" for k and hs :: "Habit list"
    using that by (induction hs) auto
  moreover have "filter (\<lambda>c. habitId c = k) (filter (\<lambda>c. habitId c \<noteq> i) cs) =
        filter (\<lambda>c. habitId c = k) cs" if "k \<noteq> i" for k and cs :: "Completion list"
    using that by (induction cs) auto
  ultimately show ?thesis
    by (simp add: habits_deleteHabit completions_deleteHabit) (simp add: deleteHabit_def)
qed

theorem deleteHabit_cascades_witness:
  "habits (deleteHabit sampleJSON ''1'' Delete sampleState) = [sampleHabits ! 1]
   \<and> completions (deleteHabit sampleJSON ''1'' Delete sampleState) =
       [\<lparr>habitId = ''2'', date = ''1970-01-01''\<rparr>]
   \<and> filter (\<lambda>c. habitId c = ''2'') (completions (deleteHabit sampleJSON ''1'' Delete sampleState)) =
       filter (\<lambda>c. habitId c = ''2'') (completions sampleState)"
  using deleteHabit_cascades [of sampleJSON "''1''" sampleState]
  by (simp add: sampleState_def sampleHabits_def sampleCompletions_def)

text \<open>
  C10. Two collections in which a habit has the same set of dates give the habit
  the same streak. In particular the streak does not depend on the order of the
  collection or on duplicates (collections with the same elements), nor on the
  completions of other habits.
\<close>

theorem streak_depends_on_habit_dates_only:
  "(habitDates h cs1 = habitDates h cs2 \<longrightarrow> getStreak z now h cs1 = getStreak z now h cs2)
   \<and> (set cs1 = set cs2 \<longrightarrow> getStreak z now h cs1 = getStreak z now h cs2)
   \<and> ((\<forall>c \<in> set others. habitId c \<noteq> h) \<longrightarrow>
        getStreak z now h (cs1 @ others) = getStreak z now h cs1
      \<and> getStreak z now h (others @ cs1) = getStreak z now h cs1)"
proof (intro conjI impI)
  assume "habitDates h cs1 = habitDates h cs2"
  then show "getStreak z now h cs1 = getStreak z now h cs2" by (rule getStreak_habitDates)
next
  assume "set cs1 = set cs2"
  then have "habitDates h cs1 = habitDates h cs2" by (simp add: habitDates_def)
  then show "getStreak z now h cs1 = getStreak z now h cs2" by (rule getStreak_habitDates)
next
  assume o: "\<forall>c \<in> set others. habitId c \<noteq> h"
  then have "habitDates h (cs1 @ others) = habitDates h cs1"
    by (auto simp: habitDates_def)
  then show "getStreak z now h (cs1 @ others) = getStreak z now h cs1"
    by (rule getStreak_habitDates)
  from o have "habitDates h (others @ cs1) = habitDates h cs1"
    by (auto simp: habitDates_def)
  then show "getStreak z now h (others @ cs1) = getStreak z now h cs1"
    by (rule getStreak_habitDates)
qed

theorem streak_depends_on_habit_dates_only_witness:
  "getStreak zoneEast 0 ''1'' (sampleCompletions @ rev sampleCompletions)
   = getStreak zoneEast 0 ''1'' [\<lparr>habitId = ''1'', date = ''1970-01-01''\<rparr>]"
proof -
  have h: "habitDates ''1'' (sampleCompletions @ rev sampleCompletions)
    = habitDates ''1'' [\<lparr>habitId = ''1'', date = ''1970-01-01''\<rparr>]"
    by (rule set_eqI) (auto simp: habitDates_iff sampleCompletions_def)
  from streak_depends_on_habit_dates_only [of "''1''" _ _ zoneEast 0] h show ?thesis by blast
qed

section \<open>The suggestion lookup\<close>

lemma take_eq_iff_prefix: "take (length kw) s = kw \<longleftrightarrow> (\<exists>q. s = kw @ q)"
proof
  assume "take (length kw) s = kw"
  then have "s = kw @ drop (length kw) s" by (metis append_take_drop_id)
  then show "\<exists>q. s = kw @ q" ..
next
  assume "\<exists>q. s = kw @ q"
  then show "take (length kw) s = kw" by auto
qed

lemma includesStr_iff: "includesStr s kw \<longleftrightarrow> (\<exists>p q. s = p @ kw @ q)"
proof (induction s)
  case Nil
  show ?case by auto
next
  case (Cons c cs)
  have "(\<exists>p q. c # cs = p @ kw @ q) \<longleftrightarrow>
        (\<exists>q. c # cs = kw @ q) \<or> (\<exists>p q. cs = p @ kw @ q)"
  proof
    assume "\<exists>p q. c # cs = p @ kw @ q"
    then obtain p q where pq: "c # cs = p @ kw @ q" by blast
    show "(\<exists>q. c # cs = kw @ q) \<or> (\<exists>p q. cs = p @ kw @ q)"
    proof (cases p)
      case Nil
      with pq show ?thesis by auto
    next
      case (Cons a p')
      with pq have "cs = p' @ kw @ q" by simp
      then show ?thesis by blast
    qed
  next
    assume "(\<exists>q. c # cs = kw @ q) \<or> (\<exists>p q. cs = p @ kw @ q)"
    then show "\<exists>p q. c # cs = p @ kw @ q"
    proof
      assume "\<exists>q. c # cs = kw @ q"
      then obtain q where "c # cs = [] @ kw @ q" by auto
      then show ?thesis by blast
    next
      assume "\<exists>p q. cs = p @ kw @ q"
      then obtain p q where "c # cs = (c # p) @ kw @ q" by auto
      then show ?thesis by blast
    qed
  qed
  with Cons show ?case by (simp only: includesStr.simps take_eq_iff_prefix)
qed

lemma suggestVideoLoop_find:
  "suggestVideoLoop lower es = (case find (matchesVideo lower) es of
      None \<Rightarrow> FALLBACK_VIDEO | Some e \<Rightarrow> (VideoEntry.videoId e, VideoEntry.title e))"
  by (induction es) simp_all

lemma suggestPlaylistLoop_find:
  "suggestPlaylistLoop lower es = (case find (matchesPlaylist lower) es of
      None \<Rightarrow> FALLBACK_PLAYLIST | Some e \<Rightarrow> e)"
  by (induction es) simp_all

lemma video_keywords_lower:
  "list_all (\<lambda>e. list_all (\<lambda>kw. toLowerCase kw = kw) (VideoEntry.keywords' e)) VIDEO_MAP"
  by code_simp

lemma playlist_keywords_lower:
  "list_all (\<lambda>e. list_all (\<lambda>kw. toLowerCase kw = kw) (PlaylistEntry.keywords' e)) PLAYLIST_MAP"
  by code_simp

lemma matchesVideo_iff:
  assumes "e \<in> set VIDEO_MAP"
  shows "matchesVideo (toLowerCase s) e \<longleftrightarrow>
         (\<exists>kw \<in> set (VideoEntry.keywords' e). containsIgnoringCase s kw)"
proof -
  have "toLowerCase kw = kw" if "kw \<in> set (VideoEntry.keywords' e)" for kw
    using video_keywords_lower assms that by (auto simp: list_all_iff)
  then show ?thesis
    by (auto simp: matchesVideo_def list_ex_iff includesStr_iff containsIgnoringCase_def)
qed

lemma matchesPlaylist_iff:
  assumes "e \<in> set PLAYLIST_MAP"
  shows "matchesPlaylist (toLowerCase s) e \<longleftrightarrow>
         (\<exists>kw \<in> set (PlaylistEntry.keywords' e). containsIgnoringCase s kw)"
proof -
  have "toLowerCase kw = kw" if "kw \<in> set (PlaylistEntry.keywords' e)" for kw
    using playlist_keywords_lower assms that by (auto simp: list_all_iff)
  then show ?thesis
    by (auto simp: matchesPlaylist_def list_ex_iff includesStr_iff containsIgnoringCase_def)
qed

text \<open>
  C7. For every habit name, \<open>suggestVideo\<close> and \<open>suggestPlaylist\<close> return the
  first entry of their table one of whose keywords occurs in the name, compared without
  regard to case, and the fixed fallback when no entry has one; they are total. The name
  "Morning Run" gets the entry with the keyword "run" in both tables, although the
  keyword "morning" of a later entry occurs in it too.
\<close>

theorem suggestion_first_match_wins:
  "suggestVideo habitName =
     (case find (\<lambda>e. \<exists>kw \<in> set (VideoEntry.keywords' e). containsIgnoringCase habitName kw) VIDEO_MAP of
        None \<Rightarrow> FALLBACK_VIDEO
      | Some e \<Rightarrow> (VideoEntry.videoId e, VideoEntry.title e))
   \<and> suggestPlaylist habitName =
     (case find (\<lambda>e. \<exists>kw \<in> set (PlaylistEntry.keywords' e). containsIgnoringCase habitName kw) PLAYLIST_MAP of
        None \<Rightarrow> FALLBACK_PLAYLIST
      | Some e \<Rightarrow> e)
   \<and> suggestVideo ''Morning Run'' = (VideoEntry.videoId (VIDEO_MAP ! 1), VideoEntry.title (VIDEO_MAP ! 1))
   \<and> ''run'' \<in> set (VideoEntry.keywords' (VIDEO_MAP ! 1))
   \<and> ''morning'' \<in> set (VideoEntry.keywords' (VIDEO_MAP ! 5))
   \<and> containsIgnoringCase ''Morning Run'' ''morning''
   \<and> suggestVideo ''Morning Run'' \<noteq> (VideoEntry.videoId (VIDEO_MAP ! 5), VideoEntry.title (VIDEO_MAP ! 5))
   \<and> suggestPlaylist ''Morning Run'' = PLAYLIST_MAP ! 2
   \<and> ''run'' \<in> set (PlaylistEntry.keywords' (PLAYLIST_MAP ! 2))
   \<and> ''morning'' \<in> set (PlaylistEntry.keywords' (PLAYLIST_MAP ! 6))
   \<and> suggestPlaylist ''Morning Run'' \<noteq> PLAYLIST_MAP ! 6"
proof -
  have v: "find (matchesVideo (toLowerCase habitName)) VIDEO_MAP =
        find (\<lambda>e. \<exists>kw \<in> set (VideoEntry.keywords' e). containsIgnoringCase habitName kw) VIDEO_MAP"
    by (rule find_cong) (simp_all add: matchesVideo_iff)
  have p: "find (matchesPlaylist (toLowerCase habitName)) PLAYLIST_MAP =
        find (\<lambda>e. \<exists>kw \<in> set (PlaylistEntry.keywords' e). containsIgnoringCase habitName kw) PLAYLIST_MAP"
    by (rule find_cong) (simp_all add: matchesPlaylist_iff)
  have 1: "suggestVideo habitName =
     (case find (\<lambda>e. \<exists>kw \<in> set (VideoEntry.keywords' e). containsIgnoringCase habitName kw) VIDEO_MAP of
        None \<Rightarrow> FALLBACK_VIDEO
      | Some e \<Rightarrow> (VideoEntry.videoId e, VideoEntry.title e))"
    by (simp only: suggestVideo_def Let_def suggestVideoLoop_find v)
  have 2: "suggestPlaylist habitName =
     (case find (\<lambda>e. \<exists>kw \<in> set (PlaylistEntry.keywords' e). containsIgnoringCase habitName kw) PLAYLIST_MAP of
        None \<Rightarrow> FALLBACK_PLAYLIST
      | Some e \<Rightarrow> e)"
    by (simp only: suggestPlaylist_def Let_def suggestPlaylistLoop_find p)
  have 3: "suggestVideo ''Morning Run'' = (VideoEntry.videoId (VIDEO_MAP ! 1), VideoEntry.title (VIDEO_MAP ! 1))
   \<and> ''run'' \<in> set (VideoEntry.keywords' (VIDEO_MAP ! 1))
   \<and> ''morning'' \<in> set (VideoEntry.keywords' (VIDEO_MAP ! 5))
   \<and> suggestVideo ''Morning Run'' \<noteq> (VideoEntry.videoId (VIDEO_MAP ! 5), VideoEntry.title (VIDEO_MAP ! 5))"
    by code_simp
  have 4: "suggestPlaylist ''Morning Run'' = PLAYLIST_MAP ! 2
   \<and> ''run'' \<in> set (PlaylistEntry.keywords' (PLAYLIST_MAP ! 2))
   \<and> ''morning'' \<in> set (PlaylistEntry.keywords' (PLAYLIST_MAP ! 6))
   \<and> suggestPlaylist ''Morning Run'' \<noteq> PLAYLIST_MAP ! 6"
    by code_simp
  have "includesStr (toLowerCase ''Morning Run'') (toLowerCase ''morning'')"
    by code_simp
  then have 5: "containsIgnoringCase ''Morning Run'' ''morning''"
    by (simp only: includesStr_iff containsIgnoringCase_def)
  from 1 2 3 4 5 show ?thesis by blast
qed

theorem suggestion_first_match_wins_witness:
  "(case find (\<lambda>e. \<exists>kw \<in> set (VideoEntry.keywords' e). containsIgnoringCase ''GYM time'' kw) VIDEO_MAP of
        None \<Rightarrow> FALLBACK_VIDEO
      | Some e \<Rightarrow> (VideoEntry.videoId e, VideoEntry.title e))
     = (''vc1E5CfRfos'', ''The Science of Getting Stronger'')
   \<and> (case find (\<lambda>e. \<exists>kw \<in> set (PlaylistEntry.keywords' e). containsIgnoringCase ''xyz'' kw) PLAYLIST_MAP of
        None \<Rightarrow> FALLBACK_PLAYLIST
      | Some e \<Rightarrow> e) = FALLBACK_PLAYLIST"
proof -
  have v: "suggestVideo ''GYM time'' = (''vc1E5CfRfos'', ''The Science of Getting Stronger'')"
    by code_simp
  have p: "suggestPlaylist ''xyz'' = FALLBACK_PLAYLIST"
    by code_simp
  from suggestion_first_match_wins [of "''GYM time''"] suggestion_first_match_wins [of "''xyz''"] v p
  show ?thesis by (simp only:)
qed

section \<open>Creating a habit\<close>

lemma trim_Nil_iff: "trim s = [] \<longleftrightarrow> (\<forall>c \<in> set s. isWhiteSpace c)"
proof -
  let ?d = "dropWhile isWhiteSpace s"
  have "trim s = [] \<longleftrightarrow> (\<forall>c \<in> set ?d. isWhiteSpace c)"
    by (simp add: trim_def dropWhile_eq_Nil_conv)
  also have "\<dots> \<longleftrightarrow> ?d = []"
  proof
    assume a: "\<forall>c \<in> set ?d. isWhiteSpace c"
    show "?d = []"
    proof (rule ccontr)
      assume n: "?d \<noteq> []"
      then have "\<not> isWhiteSpace (hd ?d)" by (rule hd_dropWhile)
      moreover from n have "hd ?d \<in> set ?d" by (rule hd_in_set)
      ultimately show False using a by blast
    qed
  next
    assume "?d = []"
    then show "\<forall>c \<in> set ?d. isWhiteSpace c" by (simp only: set_simps ball_empty)
  qed
  also have "\<dots> \<longleftrightarrow> (\<forall>c \<in> set s. isWhiteSpace c)"
    by (simp add: dropWhile_eq_Nil_conv)
  finally show ?thesis .
qed

lemma trim_decomp:
  "\<exists>a b. s = a @ trim s @ b \<and> (\<forall>c \<in> set a. isWhiteSpace c) \<and> (\<forall>c \<in> set b. isWhiteSpace c)"
proof -
  let ?d = "dropWhile isWhiteSpace s"
  let ?r = "rev ?d"
  have "?d = rev (takeWhile isWhiteSpace ?r @ dropWhile isWhiteSpace ?r)"
    by (simp only: takeWhile_dropWhile_id rev_rev_ident)
  also have "\<dots> = trim s @ rev (takeWhile isWhiteSpace ?r)"
    by (simp only: rev_append trim_def)
  finally have "takeWhile isWhiteSpace s @ ?d =
        takeWhile isWhiteSpace s @ trim s @ rev (takeWhile isWhiteSpace ?r)"
    by (rule arg_cong)
  then have "s = takeWhile isWhiteSpace s @ trim s @ rev (takeWhile isWhiteSpace ?r)"
    by (simp only: takeWhile_dropWhile_id)
  moreover have "\<forall>c \<in> set (takeWhile isWhiteSpace s). isWhiteSpace c"
    by (auto dest: set_takeWhileD)
  moreover have "\<forall>c \<in> set (rev (takeWhile isWhiteSpace ?r)). isWhiteSpace c"
    by (auto dest: set_takeWhileD)
  ultimately show ?thesis by blast
qed

lemma trim_ends:
  assumes "trim s \<noteq> []"
  shows "\<not> isWhiteSpace (hd (trim s)) \<and> \<not> isWhiteSpace (last (trim s))"
proof -
  let ?d = "dropWhile isWhiteSpace s"
  let ?e = "dropWhile isWhiteSpace (rev ?d)"
  have e: "?e \<noteq> []" using assms by (simp add: trim_def)
  have d: "?d \<noteq> []"
  proof
    assume "?d = []"
    then have "?e = []" by (simp only: rev.simps dropWhile.simps)
    with e show False by contradiction
  qed
  have t: "trim s = rev ?e" by (simp only: trim_def)
  have "last (trim s) = hd ?e" using e by (simp only: t last_rev)
  moreover have "\<not> isWhiteSpace (hd ?e)" using e by (rule hd_dropWhile)
  moreover have "rev ?d = takeWhile isWhiteSpace (rev ?d) @ ?e"
    by (simp only: takeWhile_dropWhile_id)
  then have "last (rev ?d) = last ?e" using e by (metis last_appendR)
  then have "hd (trim s) = hd ?d" using d e by (simp only: t hd_rev last_rev)
  moreover have "\<not> isWhiteSpace (hd ?d)" using d by (rule hd_dropWhile)
  ultimately show ?thesis by simp
qed

text \<open>
  C6. When the input is empty or holds white space only, \<open>addHabit\<close> returns the
  state it was given: no habit, no change of the input or of the storage. Otherwise it
  appends one habit whose name is the input without its leading and trailing white space,
  with the video id and the playlist looked up for that name, and persists the new
  collection.
\<close>

theorem addHabit_rejects_blank_names:
  "((\<forall>c \<in> set (input st). isWhiteSpace c) \<longrightarrow> addHabit J nowId nowCreated st = st)
   \<and> (\<not> (\<forall>c \<in> set (input st). isWhiteSpace c) \<longrightarrow>
        (\<exists>h. habits (addHabit J nowId nowCreated st) = habits st @ [h]
            \<and> name h = trim (input st)
            \<and> name h \<noteq> [] \<and> \<not> isWhiteSpace (hd (name h)) \<and> \<not> isWhiteSpace (last (name h))
            \<and> (\<exists>a b. input st = a @ name h @ b
                  \<and> (\<forall>c \<in> set a. isWhiteSpace c) \<and> (\<forall>c \<in> set b. isWhiteSpace c))
            \<and> Habit.videoId h = fst (suggestVideo (name h))
            \<and> Habit.playlistId h = PlaylistEntry.playlistId (suggestPlaylist (name h))
            \<and> storage (addHabit J nowId nowCreated st) HABITS_KEY =
                 Some (stringifyHabits J (habits st @ [h]))))"
proof (intro conjI impI)
  assume "\<forall>c \<in> set (input st). isWhiteSpace c"
  then have "trim (input st) = []" by (simp only: trim_Nil_iff)
  then show "addHabit J nowId nowCreated st = st" by (simp add: addHabit_def)
next
  assume "\<not> (\<forall>c \<in> set (input st). isWhiteSpace c)"
  then have n: "trim (input st) \<noteq> []" by (simp only: trim_Nil_iff not_False_eq_True)
  let ?p = "suggestPlaylist (trim (input st))"
  let ?h = "\<lparr>habit_id = intToString nowId, name = trim (input st),
             createdAt = toISOString nowCreated,
             videoId = fst (suggestVideo (trim (input st))), videoTitle = None,
             playlistId = PlaylistEntry.playlistId ?p, playlistTitle = PlaylistEntry.title ?p,
             playlistCategory = category ?p, playlistEmoji = emoji ?p,
             playlistColor = color ?p\<rparr>"
  have a: "addHabit J nowId nowCreated st = (saveHabits J (habits st @ [?h]) st)\<lparr>input := []\<rparr>"
    using n by (simp add: addHabit_def Let_def videoProperty_def)
  have "habits (addHabit J nowId nowCreated st) = habits st @ [?h]"
    by (simp add: a saveHabits_def)
  moreover have "storage (addHabit J nowId nowCreated st) HABITS_KEY =
                 Some (stringifyHabits J (habits st @ [?h]))"
    by (simp add: a saveHabits_def)
  moreover have "name ?h = trim (input st)" by simp
  moreover have "Habit.videoId ?h = fst (suggestVideo (name ?h))" by simp
  moreover have "Habit.playlistId ?h = PlaylistEntry.playlistId (suggestPlaylist (name ?h))" by simp
  moreover note n trim_ends [OF n] trim_decomp [of "input st"]
  ultimately show "\<exists>h. habits (addHabit J nowId nowCreated st) = habits st @ [h]
            \<and> name h = trim (input st)
            \<and> name h \<noteq> [] \<and> \<not> isWhiteSpace (hd (name h)) \<and> \<not> isWhiteSpace (last (name h))
            \<and> (\<exists>a b. input st = a @ name h @ b
                  \<and> (\<forall>c \<in> set a. isWhiteSpace c) \<and> (\<forall>c \<in> set b. isWhiteSpace c))
            \<and> Habit.videoId h = fst (suggestVideo (name h))
            \<and> Habit.playlistId h = PlaylistEntry.playlistId (suggestPlaylist (name h))
            \<and> storage (addHabit J nowId nowCreated st) HABITS_KEY =
                 Some (stringifyHabits J (habits st @ [h]))"
    by (intro exI [of _ ?h]) (simp only: simp_thms)
qed

theorem addHabit_rejects_blank_names_witness:
  "addHabit sampleJSON 3 3 (sampleState\<lparr>input := ''  ''\<rparr>) = sampleState\<lparr>input := ''  ''\<rparr>
   \<and> (\<exists>h. habits (addHabit sampleJSON 3 3 (sampleState\<lparr>input := '' Morning Run ''\<rparr>)) = sampleHabits @ [h]
         \<and> name h = ''Morning Run'')"
proof -
  have w: "\<forall>c \<in> set (input (sampleState\<lparr>input := ''  ''\<rparr>)). isWhiteSpace c"
    by (simp add: isWhiteSpace_def)
  have n: "\<not> (\<forall>c \<in> set (input (sampleState\<lparr>input := '' Morning Run ''\<rparr>)). isWhiteSpace c)"
    by (simp add: isWhiteSpace_def)
  have t: "trim '' Morning Run '' = ''Morning Run''"
    by code_simp
  from addHabit_rejects_blank_names [of "sampleState\<lparr>input := ''  ''\<rparr>" sampleJSON 3 3] w
  have 1: "addHabit sampleJSON 3 3 (sampleState\<lparr>input := ''  ''\<rparr>) = sampleState\<lparr>input := ''  ''\<rparr>"
    by blast
  from addHabit_rejects_blank_names [of "sampleState\<lparr>input := '' Morning Run ''\<rparr>" sampleJSON 3 3] n
  obtain h where "habits (addHabit sampleJSON 3 3 (sampleState\<lparr>input := '' Morning Run ''\<rparr>)) =
      habits (sampleState\<lparr>input := '' Morning Run ''\<rparr>) @ [h]"
      "name h = trim (input (sampleState\<lparr>input := '' Morning Run ''\<rparr>))"
    by blast
  then have "habits (addHabit sampleJSON 3 3 (sampleState\<lparr>input := '' Morning Run ''\<rparr>)) = sampleHabits @ [h]
         \<and> name h = ''Morning Run''"
    using t by (simp add: sampleState_def)
  with 1 show ?thesis by blast
qed

section \<open>Persistence\<close>

text \<open>
  C9. Saving a habit collection and a completion collection and then running the
  load effect on a fresh state over the same storage gives back both collections,
  provided the platform's JSON reads back what it wrote for them (and wrote a non-empty
  text, as every JSON text is).
\<close>

theorem load_after_save_roundtrip:
  assumes "parseHabits J (stringifyHabits J hs) = Some hs"
      and "parseCompletions J (stringifyCompletions J cs) = Some cs"
      and "stringifyHabits J hs \<noteq> []" and "stringifyCompletions J cs \<noteq> []"
  shows "habits (load J (initialState (storage (saveCompletions J cs (saveHabits J hs st))))) = hs
       \<and> completions (load J (initialState (storage (saveCompletions J cs (saveHabits J hs st))))) = cs"
  using assms
  by (simp add: load_def initialState_def saveCompletions_def saveHabits_def truthy_def
      HABITS_KEY_def COMPLETIONS_KEY_def Let_def)

theorem load_after_save_roundtrip_witness:
  "habits (load sampleJSON (initialState (storage
      (saveCompletions sampleJSON sampleCompletions (saveHabits sampleJSON sampleHabits (initialState Map.empty))))))
     = sampleHabits
   \<and> completions (load sampleJSON (initialState (storage
      (saveCompletions sampleJSON sampleCompletions (saveHabits sampleJSON sampleHabits (initialState Map.empty))))))
     = sampleCompletions"
proof -
  have 1: "parseHabits sampleJSON (stringifyHabits sampleJSON sampleHabits) = Some sampleHabits"
    by (simp add: sampleJSON_def sampleHabits_def)
  have 2: "parseCompletions sampleJSON (stringifyCompletions sampleJSON sampleCompletions) = Some sampleCompletions"
    by (simp add: sampleJSON_def sampleCompletions_def)
  have 3: "stringifyHabits sampleJSON sampleHabits \<noteq> []"
    by (simp add: sampleJSON_def sampleHabits_def)
  have 4: "stringifyCompletions sampleJSON sampleCompletions \<noteq> []"
    by (simp add: sampleJSON_def sampleCompletions_def)
  show ?thesis by (rule load_after_save_roundtrip [OF 1 2 3 4])
qed

section \<open>Calendar arithmetic\<close>

lemma div_bounds:
  fixes x n :: int
  assumes "0 < n"
  shows "n * (x div n) \<le> x" and "x < n * (x div n) + n"
proof -
  have e: "x = n * (x div n) + x mod n" by simp
  have "0 \<le> x mod n" "x mod n < n" using assms by simp_all
  with e show "n * (x div n) \<le> x" and "x < n * (x div n) + n" by linarith+
qed

lemma DayFromYear_lower: "DayFromYear (1970 + (400 * d) div 146097 - 1) \<le> d"
proof -
  define q where "q = (400 * d) div 146097"
  define a where "a = (q + 1970 - 1 - 1969) div 4"
  define b where "b = (q + 1970 - 1 - 1901) div 100"
  define c where "c = (q + 1970 - 1 - 1601) div 400"
  have q: "146097 * q \<le> 400 * d" unfolding q_def by (rule div_bounds) simp
  have a: "4 * a \<le> q + 1970 - 1 - 1969" unfolding a_def by (rule div_bounds) simp
  have b: "q + 1970 - 1 - 1901 < 100 * b + 100" unfolding b_def by (rule div_bounds) simp
  have c: "400 * c \<le> q + 1970 - 1 - 1601" unfolding c_def by (rule div_bounds) simp
  have "400 * (365 * (q - 1) + a - b + c) \<le> 400 * d"
    using q a b c by (simp add: algebra_simps)
  then have "365 * (q + 1970 - 1 - 1970) + a - b + c \<le> d" by simp
  then show ?thesis unfolding DayFromYear_def q_def a_def b_def c_def by simp
qed

lemma DayFromYear_upper: "d < DayFromYear (1970 + (400 * d) div 146097 + 2)"
proof -
  define q where "q = (400 * d) div 146097"
  define a where "a = (q + 1970 + 2 - 1969) div 4"
  define b where "b = (q + 1970 + 2 - 1901) div 100"
  define c where "c = (q + 1970 + 2 - 1601) div 400"
  have q: "400 * d < 146097 * q + 146097" unfolding q_def by (rule div_bounds) simp
  have a: "q + 1970 + 2 - 1969 < 4 * a + 4" unfolding a_def by (rule div_bounds) simp
  have b: "100 * b \<le> q + 1970 + 2 - 1901" unfolding b_def by (rule div_bounds) simp
  have c: "q + 1970 + 2 - 1601 < 400 * c + 400" unfolding c_def by (rule div_bounds) simp
  have "400 * d < 400 * (365 * (q + 2) + a - b + c)"
    using q a b c by (simp add: algebra_simps)
  then have "d < 365 * (q + 1970 + 2 - 1970) + a - b + c" by simp
  then show ?thesis unfolding DayFromYear_def q_def a_def b_def c_def by simp
qed

lemma div_step:
  fixes x n :: int
  assumes "0 < n"
  shows "(x + 1) div n = x div n + (if (x + 1) mod n = 0 then 1 else 0)"
proof -
  let ?r = "x mod n"
  have r: "0 \<le> ?r" "?r < n" using assms by simp_all
  have e: "x + 1 = (?r + 1) + n * (x div n)" by simp
  have d: "(x + 1) div n = x div n + (?r + 1) div n"
    using assms by (subst e) (simp only: div_mult_self2 less_irrefl not_False_eq_True)
  have m: "(x + 1) mod n = (?r + 1) mod n"
    by (subst e) (simp only: mod_mult_self2)
  show ?thesis
  proof (cases "?r + 1 = n")
    case True
    then show ?thesis using assms d m by simp
  next
    case False
    with r have "?r + 1 < n" "0 \<le> ?r + 1" by simp_all
    then have "(?r + 1) div n = 0" "(?r + 1) mod n = ?r + 1" by simp_all
    with r show ?thesis using d m by simp
  qed
qed

lemma mod_shift: "(y - n * k) mod n = y mod n" for y n k :: int
proof -
  have "(y - n * k) mod n = (y + n * (- k)) mod n" by simp
  also have "\<dots> = y mod n" by (simp only: mod_mult_self2)
  finally show ?thesis .
qed

lemma div4_step: "(y + 1 - 1969) div 4 = (y - 1969) div 4 + (if y mod 4 = 0 then 1 else 0)" for y :: int
  using div_step [of 4 "y - 1969"] mod_shift [of y 4 492] by (simp add: algebra_simps)

lemma div100_step: "(y + 1 - 1901) div 100 = (y - 1901) div 100 + (if y mod 100 = 0 then 1 else 0)" for y :: int
  using div_step [of 100 "y - 1901"] mod_shift [of y 100 19] by (simp add: algebra_simps)

lemma div400_step: "(y + 1 - 1601) div 400 = (y - 1601) div 400 + (if y mod 400 = 0 then 1 else 0)" for y :: int
  using div_step [of 400 "y - 1601"] mod_shift [of y 400 4] by (simp add: algebra_simps)

lemma mod100_mod4: "y mod 100 = 0 \<Longrightarrow> y mod 4 = 0" for y :: int
  using dvd_trans [of 4 100 y] by (simp add: dvd_eq_mod_eq_0 [symmetric])

lemma mod400_mod100: "y mod 400 = 0 \<Longrightarrow> y mod 100 = 0" for y :: int
  using dvd_trans [of 100 400 y] by (simp add: dvd_eq_mod_eq_0 [symmetric])

lemma DayFromYear_Suc: "DayFromYear (y + 1) = DayFromYear y + DaysInYear y"
  unfolding DayFromYear_def DaysInYear_def div4_step div100_step div400_step
  using mod100_mod4 [of y] mod400_mod100 [of y] by auto

lemma YearFromDay_bounds:
  "DayFromYear (YearFromDay d) \<le> d \<and> d < DayFromYear (YearFromDay d + 1)"
proof -
  let ?y = "1970 + (400 * d) div 146097"
  have l: "DayFromYear (?y - 1) \<le> d" by (rule DayFromYear_lower)
  have u: "d < DayFromYear (?y + 1 + 1)" using DayFromYear_upper [of d] by (simp add: add.assoc)
  show ?thesis
  proof (cases "d < DayFromYear ?y")
    case True
    then show ?thesis using l by (simp add: YearFromDay_def Let_def)
  next
    case False
    then show ?thesis using u by (simp add: YearFromDay_def Let_def)
  qed
qed

lemma DaysInYear_leapDay: "DaysInYear y = 365 + leapDay y"
  by (simp add: DaysInYear_def leapDay_def)

lemma leapDay_cases: "leapDay y = 0 \<or> leapDay y = 1"
  by (simp add: leapDay_def)

lemma DayWithinYear_bounds:
  "0 \<le> DayWithinYear t \<and> DayWithinYear t < 365 + leapDay (YearFromTime t)"
  using YearFromDay_bounds [of "Day t"]
  by (simp add: DayWithinYear_def YearFromTime_def DayFromYear_Suc DaysInYear_leapDay)

lemma MonthFromTime_bounds: "0 \<le> MonthFromTime t \<and> MonthFromTime t \<le> 11"
  by (simp add: MonthFromTime_def Let_def)

lemma date_in_month:
  fixes d l :: int
  assumes "0 \<le> d" "d < 365 + l" "l = 0 \<or> l = 1"
  defines "m \<equiv> (if d < 31 then 0 else if d < 59 + l then 1 else if d < 90 + l then 2
     else if d < 120 + l then 3 else if d < 151 + l then 4 else if d < 181 + l then 5
     else if d < 212 + l then 6 else if d < 243 + l then 7 else if d < 273 + l then 8
     else if d < 304 + l then 9 else if d < 334 + l then 10 else (11::int))"
  shows "1 \<le> d - monthStart l m + 1 \<and> d - monthStart l m + 1 \<le> 31"
  using assms(1-3) unfolding m_def monthStart_def by auto

lemma DateFromTime_bounds: "1 \<le> DateFromTime t \<and> DateFromTime t \<le> 31"
  using date_in_month [of "DayWithinYear t" "leapDay (YearFromTime t)"]
    DayWithinYear_bounds [of t] leapDay_cases [of "YearFromTime t"]
  by (simp add: DateFromTime_def MonthFromTime_def Let_def)

lemma Day_decomp:
  "Day t = DayFromYear (YearFromTime t)
     + monthStart (leapDay (YearFromTime t)) (MonthFromTime t) + DateFromTime t - 1"
  by (simp add: DateFromTime_def DayWithinYear_def)

lemma setDate_back:
  "setDate z (getDate z t - k) t = UTC z (LocalTime z t - k * msPerDay)"
proof -
  let ?l = "LocalTime z t"
  have m: "MonthFromTime ?l div 12 = 0" "MonthFromTime ?l mod 12 = MonthFromTime ?l"
    using MonthFromTime_bounds [of ?l] by simp_all
  have "MakeDay (YearFromTime ?l) (MonthFromTime ?l) (DateFromTime ?l - k) = Day ?l - k"
    using Day_decomp [of ?l] by (simp add: MakeDay_def Let_def m)
  moreover have "MakeDate (Day ?l - k) (TimeWithinDay ?l) = ?l - k * msPerDay"
    by (simp add: MakeDate_def Day_def TimeWithinDay_def algebra_simps)
  ultimately show ?thesis by (simp add: setDate_def getDate_def Let_def)
qed

section \<open>The streak walk\<close>

lemma streakLoop_walk:
  assumes "1 \<le> i" "i \<le> 365"
  shows "streakLoop z dates i cur s =
         s + length (takeWhile (\<lambda>j. slice10 (toISOString (((\<lambda>c. setDate z (getDate z c - 1) c) ^^ (j - i)) cur)) \<in> set dates) [i..<365])"
  using assms
proof (induction z dates i cur s rule: streakLoop.induct)
  case (1 z dates i cur streak)
  let ?step = "\<lambda>c. setDate z (getDate z c - 1) c"
  let ?P = "\<lambda>i cur j. slice10 (toISOString ((?step ^^ (j - i)) cur)) \<in> set dates"
  show ?case
  proof (cases "i < 365")
    case False
    then show ?thesis by (simp add: streakLoop.simps [of z dates i])
  next
    case True
    then have "[i..<365] = i # [Suc i..<365]" by (rule upt_conv_Cons)
    then have up: "[i..<365] = i # [i + 1..<365]" by (simp only: Suc_eq_plus1)
    show ?thesis
    proof (cases "slice10 (toISOString cur) \<in> set dates")
      case no: False
      with True \<open>1 \<le> i\<close> show ?thesis
        by (simp add: streakLoop.simps [of z dates i] up)
    next
      case yes: True
      have ih: "streakLoop z dates (i + 1) (?step cur) (streak + 1) =
            streak + 1 + length (takeWhile (?P (i + 1) (?step cur)) [i + 1..<365])"
        using "1.IH"(1) [OF True refl yes] True by simp
      have "takeWhile (?P (i + 1) (?step cur)) [i + 1..<365] = takeWhile (?P i cur) [i + 1..<365]"
      proof (rule takeWhile_cong [OF refl])
        fix j assume "j \<in> set [i + 1..<365]"
        then have "j - i = Suc (j - (i + 1))" by auto
        then show "?P (i + 1) (?step cur) j = ?P i cur j"
          by (simp only: funpow_Suc_right o_apply)
      qed
      with ih yes True show ?thesis
        by (simp add: streakLoop.simps [of z dates i] up)
    qed
  qed
qed

lemma funpow_pred: "1 \<le> j \<Longrightarrow> (f ^^ j) x = (f ^^ (j - 1)) (f x)"
  by (cases j) (simp_all add: funpow_swap1)

lemma getStreak_walk:
  "getStreak z now h cs = streakOfWalk (\<lambda>i. walkDate z now i \<in> habitDates h cs)"
proof -
  let ?step = "\<lambda>c. setDate z (getDate z c - 1) c"
  let ?dates = "rev (sort (map date (filter (\<lambda>c. habitId c = h) cs)))"
  have sd: "set ?dates = habitDates h cs" by (rule set_sorted_dates)
  show ?thesis
  proof (cases "?dates = []")
    case True
    then have "habitDates h cs = {}" using sd by (metis set_empty)
    moreover have "takeWhile (\<lambda>i. False) xs = []" for xs :: "nat list"
      by (cases xs) simp_all
    ultimately show ?thesis using True
      by (simp add: getStreak_def streakOfWalk_def)
  next
    case False
    have w: "takeWhile (\<lambda>j. slice10 (toISOString ((?step ^^ (j - 1)) (?step now))) \<in> set ?dates) [1..<365]
          = takeWhile (\<lambda>i. walkDate z now i \<in> habitDates h cs) [1..<365]"
    proof (rule takeWhile_cong [OF refl])
      fix j assume "j \<in> set [1..<365]"
      then have "1 \<le> j" by (simp only: set_upt atLeastLessThan_iff)
      then have e: "(?step ^^ j) now = (?step ^^ (j - 1)) (?step now)"
        by (rule funpow_pred)
      show "(slice10 (toISOString ((?step ^^ (j - 1)) (?step now))) \<in> set ?dates)
            = (walkDate z now j \<in> habitDates h cs)"
        by (simp only: walkDate_def sd e [symmetric])
    qed
    have l: "streakLoop z ?dates 1 (?step now) s =
          s + length (takeWhile (\<lambda>i. walkDate z now i \<in> habitDates h cs) [1..<365])" for s
      using streakLoop_walk [of 1 z ?dates "?step now" s] w by simp
    have 0: "walkDate z now 0 = slice10 (toISOString now)" by (simp add: walkDate_def)
    show ?thesis
      using False l [of 0] l [of 1] sd
      by (simp add: getStreak_def Let_def streakLoop.simps [of z ?dates 0] streakOfWalk_def 0)
  qed
qed

lemma streakOfWalk_le: "streakOfWalk done \<le> 365"
proof -
  have "length (takeWhile done [1..<365]) \<le> length [1..<365]" by (rule length_takeWhile_le)
  then show ?thesis by (simp add: streakOfWalk_def del: upt_rec_numeral)
qed

lemma walk_prefix: "[1..<365] = 1 # 2 # 3 # [4..<365]"
proof -
  have a: "[1..<365] = 1 # [2..<365]"
    using upt_conv_Cons [of 1 365] by (simp add: numeral_2_eq_2 del: upt_rec_numeral)
  have b: "[2..<365] = 2 # [3..<365]"
    using upt_conv_Cons [of 2 365] by (simp del: upt_rec_numeral)
  have c: "[3..<365] = 3 # [4..<365]"
    using upt_conv_Cons [of 3 365] by (simp del: upt_rec_numeral)
  show ?thesis by (simp only: a b c)
qed

lemma streakOfWalk_two:
  assumes "\<not> done 0" "done 1" "done 2" "\<not> done 3"
  shows "streakOfWalk done = 2"
  using assms unfolding streakOfWalk_def walk_prefix by (simp del: upt_rec_numeral)

lemma fixedOffset_step:
  assumes "fixedOffset z"
  shows "setDate z (getDate z t - k) t = t - k * msPerDay"
proof -
  from assms obtain c where c: "\<And>t b. z t b = c" unfolding fixedOffset_def by blast
  show ?thesis unfolding setDate_back by (simp add: UTC_def LocalTime_def c)
qed

lemma fixedOffset_walk:
  assumes "fixedOffset z"
  shows "((\<lambda>cur. setDate z (getDate z cur - 1) cur) ^^ i) now = now - int i * msPerDay"
  by (induction i) (simp_all add: fixedOffset_step [OF assms] algebra_simps)

text \<open>
  C1. The walk is day by day only while the offset of the local time zone stays the
  same. \<open>getStreak\<close> steps the local calendar date back and looks up the UTC date of the
  instant reached, so across a change of offset it examines a UTC day twice or not at
  all. At 2024-03-10T23:30Z in New York (19:30 local time, the day daylight time
  starts) the date examined one step back is again 2024-03-10: with completions on
  2024-03-09 and 2024-03-08 only, the streak is 0 where the walk described gives 2, and
  one completion on 2024-03-10 counts twice. With a constant offset the same collection
  at the same instant gives 2.
\<close>

theorem getStreak_repeats_day_at_offset_change:
  "todayStr 1710113400000 = ''2024-03-10''
   \<and> localDayStr zoneNewYork 1710113400000 = ''2024-03-10''
   \<and> slice10 (toISOString (setDate zoneNewYork (getDate zoneNewYork 1710113400000 - 1) 1710113400000))
       = ''2024-03-10''
   \<and> getStreak zoneNewYork 1710113400000 ''1''
        [\<lparr>habitId = ''1'', date = ''2024-03-09''\<rparr>, \<lparr>habitId = ''1'', date = ''2024-03-08''\<rparr>] = 0
   \<and> getStreak zoneNewYork 1710113400000 ''1'' [\<lparr>habitId = ''1'', date = ''2024-03-10''\<rparr>] = 2
   \<and> getStreak (\<lambda>t isUTC. 0) 1710113400000 ''1''
        [\<lparr>habitId = ''1'', date = ''2024-03-09''\<rparr>, \<lparr>habitId = ''1'', date = ''2024-03-08''\<rparr>] = 2"
  by code_simp

section \<open>The calendar-day strings\<close>

lemma natToString_small: "n < 10 \<Longrightarrow> natToString n = [digit n]"
  by (simp add: natToString.simps [of n])

lemma natToString_step:
  "10 \<le> n \<Longrightarrow> natToString n = natToString (n div 10) @ [digit (n mod 10)]"
  by (simp add: natToString.simps [of n])

lemma length_natToString_2: "n < 100 \<Longrightarrow> length (natToString n) \<le> 2"
  by (cases "n < 10") (simp_all add: natToString_small natToString_step)

lemma length_natToString_4: "n < 10000 \<Longrightarrow> length (natToString n) \<le> 4"
proof (cases "n < 100")
  case True
  then show ?thesis using length_natToString_2 [of n] by simp
next
  case False
  assume n: "n < 10000"
  show ?thesis
  proof (cases "n < 1000")
    case True
    with False have "n div 10 < 100" "10 \<le> n" by simp_all
    then show ?thesis using length_natToString_2 [of "n div 10"] by (simp add: natToString_step)
  next
    case f: False
    with n have a: "10 \<le> n" "10 \<le> n div 10" "n div 10 div 10 < 100" by simp_all
    then show ?thesis
      using length_natToString_2 [of "n div 10 div 10"] by (simp add: natToString_step)
  qed
qed

lemma natToString_not_Nil: "natToString n \<noteq> []"
  by (cases "n < 10") (simp_all add: natToString_small natToString_step)

lemma length_pad:
  assumes "length (natToString (nat i)) \<le> w"
  shows "length (pad w i) = w"
  using assms by (simp add: pad_def padStart_def)

lemma digit_value: "n < 10 \<Longrightarrow> of_char (digit n) - 48 = n"
  by (simp add: digit_def)

lemma decimalValue_natToString: "decimalValue (natToString n) = n"
proof (induction n rule: natToString.induct)
  case (1 n)
  show ?case
  proof (cases "n < 10")
    case True
    then show ?thesis by (simp add: natToString_small decimalValue_def digit_value)
  next
    case False
    then have "decimalValue (natToString (n div 10)) = n div 10" using 1 by simp
    then show ?thesis using False
      by (simp add: natToString_step decimalValue_def digit_value)
  qed
qed

lemma decimalValue_zeros:
  "foldl (\<lambda>a c. 10 * a + (of_char c - 48)) 0 (replicate k CHR ''0'') = (0::nat)"
  by (induction k) simp_all

lemma decimalValue_pad: "decimalValue (pad w i) = nat i"
  using decimalValue_natToString [of "nat i"]
  by (simp add: pad_def padStart_def decimalValue_def decimalValue_zeros)

lemma pad_inject:
  assumes "pad w i = pad w' j" "0 \<le> i" "0 \<le> j"
  shows "i = j"
proof -
  have "nat i = nat j" using assms(1) decimalValue_pad by metis
  with assms(2,3) show ?thesis by simp
qed

lemma digits_natToString: "set (natToString n) \<subseteq> digit ` {0..<10}"
proof (induction n rule: natToString.induct)
  case (1 n)
  show ?case
  proof (cases "n < 10")
    case True
    then show ?thesis by (simp add: natToString_small)
  next
    case False
    then have "set (natToString (n div 10)) \<subseteq> digit ` {0..<10}" using 1 by simp
    moreover have "digit (n mod 10) \<in> digit ` {0..<10}" by simp
    ultimately show ?thesis using False by (simp add: natToString_step)
  qed
qed

lemma digits_pad: "set (pad w i) \<subseteq> digit ` {0..<10}"
proof -
  have "CHR ''0'' = digit 0" by code_simp
  then have "set (replicate k CHR ''0'') \<subseteq> digit ` {0..<10}" for k
    by (auto simp: image_iff)
  with digits_natToString [of "nat i"] show ?thesis
    by (simp add: pad_def padStart_def)
qed

lemma date_fields_of_Day:
  assumes "Day t' = Day t"
  shows "YearFromTime t' = YearFromTime t" "MonthFromTime t' = MonthFromTime t"
    "DateFromTime t' = DateFromTime t"
proof -
  show y: "YearFromTime t' = YearFromTime t" using assms by (simp add: YearFromTime_def)
  have w: "DayWithinYear t' = DayWithinYear t" using assms y by (simp add: DayWithinYear_def)
  show m: "MonthFromTime t' = MonthFromTime t" using y w by (simp add: MonthFromTime_def)
  show "DateFromTime t' = DateFromTime t" using y w m by (simp add: DateFromTime_def)
qed

lemma pad_lengths:
  assumes "0 \<le> YearFromTime t" "YearFromTime t \<le> 9999"
  shows "length (pad 4 (YearFromTime t)) = 4" "length (pad 2 (MonthFromTime t + 1)) = 2"
    "length (pad 2 (DateFromTime t)) = 2"
proof -
  have "nat (YearFromTime t) < 10000" using assms by linarith
  then show "length (pad 4 (YearFromTime t)) = 4"
    by (intro length_pad length_natToString_4)
  have "nat (MonthFromTime t + 1) < 100" using MonthFromTime_bounds [of t] by linarith
  then show "length (pad 2 (MonthFromTime t + 1)) = 2"
    by (intro length_pad length_natToString_2)
  have "nat (DateFromTime t) < 100" using DateFromTime_bounds [of t] by linarith
  then show "length (pad 2 (DateFromTime t)) = 2"
    by (intro length_pad length_natToString_2)
qed

lemma todayStr_form:
  assumes "0 \<le> YearFromTime t" "YearFromTime t \<le> 9999"
  shows "todayStr t = pad 4 (YearFromTime t) @ ''-'' @ pad 2 (MonthFromTime t + 1) @ ''-''
           @ pad 2 (DateFromTime t)"
  using assms pad_lengths [OF assms]
  by (simp add: todayStr_def slice10_def toISOString_def yearString_def)

lemma todayStr_length:
  assumes "0 \<le> YearFromTime t" "YearFromTime t \<le> 9999"
  shows "length (todayStr t) = 10"
  using pad_lengths [OF assms] by (simp add: todayStr_form [OF assms])

lemma todayStr_inject:
  assumes a: "0 \<le> YearFromTime t" "YearFromTime t \<le> 9999"
      and b: "0 \<le> YearFromTime t'" "YearFromTime t' \<le> 9999"
      and e: "todayStr t = todayStr t'"
  shows "Day t = Day t'"
proof -
  from e have "pad 4 (YearFromTime t) = pad 4 (YearFromTime t')
      \<and> pad 2 (MonthFromTime t + 1) = pad 2 (MonthFromTime t' + 1)
      \<and> pad 2 (DateFromTime t) = pad 2 (DateFromTime t')"
    using pad_lengths [OF a] pad_lengths [OF b]
    by (simp add: todayStr_form [OF a] todayStr_form [OF b])
  then have p: "pad 4 (YearFromTime t) = pad 4 (YearFromTime t')"
      "pad 2 (MonthFromTime t + 1) = pad 2 (MonthFromTime t' + 1)"
      "pad 2 (DateFromTime t) = pad 2 (DateFromTime t')"
    by simp_all
  have "YearFromTime t = YearFromTime t'"
    using p(1) a(1) b(1) by (rule pad_inject)
  moreover have "MonthFromTime t + 1 = MonthFromTime t' + 1"
    using p(2) MonthFromTime_bounds [of t] MonthFromTime_bounds [of t']
    by (intro pad_inject) simp_all
  moreover have "DateFromTime t = DateFromTime t'"
    using p(3) DateFromTime_bounds [of t] DateFromTime_bounds [of t']
    by (intro pad_inject) simp_all
  ultimately show ?thesis using Day_decomp [of t] Day_decomp [of t'] by simp
qed

lemma lastNDays_fixedOffset:
  assumes "fixedOffset z"
  shows "lastNDays z n now = map (\<lambda>i. todayStr (now - int i * msPerDay)) (rev [0..<n])"
  by (simp add: lastNDays_def fixedOffset_step [OF assms] todayStr_def)

text \<open>
  C8. \<open>todayStr\<close> is documented as today's date in local time, and it returns the UTC
  date of the clock reading: \<^verbatim>\<open>toISOString\<close> prints UTC. At 1970-01-01T23:30Z in a
  zone one hour east of UTC the local day is 1970-01-02 and \<open>todayStr\<close> is 1970-01-01;
  at 2024-03-11T01:30Z in New York (21:30 local time on 2024-03-10) the local day is
  2024-03-10 and \<open>todayStr\<close> is 2024-03-11. The completion dates, the dates of the streak
  walk and those of \<open>lastNDays\<close> are printed the same way.
\<close>

theorem todayStr_differs_from_local_day:
  "todayStr 84600000 = ''1970-01-01'' \<and> localDayStr zoneEast 84600000 = ''1970-01-02''
   \<and> todayStr 84600000 \<noteq> localDayStr zoneEast 84600000
   \<and> todayStr 1710120600000 = ''2024-03-11''
   \<and> localDayStr zoneNewYork 1710120600000 = ''2024-03-10''
   \<and> lastNDays zoneEast 1 84600000 = [''1970-01-01'']"
  by code_simp

end
